theory Spec2Isabelle
  imports Complex_Main
begin

section \<open>JavaScript values\<close>

text \<open>
  A JavaScript number is an IEEE double: \<open>NaN\<close>, one of the two infinities, or a finite
  value, given here by the rational it denotes (the sign of zero is not modelled). The
  arithmetic of doubles rounds: the rounding of an exact result to a double (to nearest,
  ties to even, to an infinity on overflow) is the parameter \<open>rnd\<close> of the operations.
\<close>

datatype jsnum = NaN | PosInf | NegInf | Fin rat

text \<open>\<open>x + y\<close> on numbers.\<close>

fun js_add :: "(rat \<Rightarrow> jsnum) \<Rightarrow> jsnum \<Rightarrow> jsnum \<Rightarrow> jsnum" where
  "js_add rnd (Fin a) (Fin b) = rnd (a + b)"
| "js_add rnd NaN y = NaN"
| "js_add rnd x NaN = NaN"
| "js_add rnd PosInf NegInf = NaN"
| "js_add rnd NegInf PosInf = NaN"
| "js_add rnd PosInf y = PosInf"
| "js_add rnd NegInf y = NegInf"
| "js_add rnd x PosInf = PosInf"
| "js_add rnd x NegInf = NegInf"

text \<open>\<open>x - y\<close> on numbers.\<close>

fun js_sub :: "(rat \<Rightarrow> jsnum) \<Rightarrow> jsnum \<Rightarrow> jsnum \<Rightarrow> jsnum" where
  "js_sub rnd (Fin a) (Fin b) = rnd (a - b)"
| "js_sub rnd NaN y = NaN"
| "js_sub rnd x NaN = NaN"
| "js_sub rnd PosInf PosInf = NaN"
| "js_sub rnd NegInf NegInf = NaN"
| "js_sub rnd PosInf y = PosInf"
| "js_sub rnd NegInf y = NegInf"
| "js_sub rnd x PosInf = NegInf"
| "js_sub rnd x NegInf = PosInf"

text \<open>
  The numbers of a list added one after the other to a total that starts at \<open>0\<close>, in the
  order of the list: what \<open>total += x\<close> in a loop over the list computes.
\<close>

definition js_sum :: "(rat \<Rightarrow> jsnum) \<Rightarrow> jsnum list \<Rightarrow> jsnum" where
  "js_sum rnd xs = foldl (js_add rnd) (Fin 0) xs"

text \<open>
  The values a field of a record can hold. \<open>JUndefined\<close> is a missing field. \<open>JObj\<close> is an
  array or an object, carrying the string that \<open>ToPrimitive\<close> gives for it.
\<close>

datatype jsval = JUndefined | JNull | JBool bool | JNum jsnum | JStr string | JObj string

text \<open>\<open>ToBoolean\<close>, as \<open>!x\<close> and \<open>x || y\<close> use it.\<close>

fun truthy :: "jsval \<Rightarrow> bool" where
  "truthy JUndefined = False"
| "truthy JNull = False"
| "truthy (JBool b) = b"
| "truthy (JNum NaN) = False"
| "truthy (JNum (Fin q)) = (q \<noteq> 0)"
| "truthy (JNum PosInf) = True"
| "truthy (JNum NegInf) = True"
| "truthy (JStr s) = (s \<noteq> [])"
| "truthy (JObj _) = True"

text \<open>\<open>x || y\<close>\<close>

definition or_else :: "jsval \<Rightarrow> jsval \<Rightarrow> jsval" where
  "or_else x y = (if truthy x then x else y)"

text \<open>
  \<open>Number(x)\<close>. The conversion of a string to a number (\<open>StringToNumber\<close>) is the
  parameter \<open>strToNum\<close>.
\<close>

fun Number :: "(string \<Rightarrow> jsnum) \<Rightarrow> jsval \<Rightarrow> jsnum" where
  "Number strToNum JUndefined = NaN"
| "Number strToNum JNull = Fin 0"
| "Number strToNum (JBool b) = Fin (if b then 1 else 0)"
| "Number strToNum (JNum n) = n"
| "Number strToNum (JStr s) = strToNum s"
| "Number strToNum (JObj s) = strToNum s"

section \<open>The local store (db.js)\<close>

text \<open>
  The nine fields of a transaction that travel between the device and the remote
  endpoint: the object literal of \<open>sync.js\<close> lines 44-54 and 94-104. The amount is a
  number: the form stores the result of \<open>parseFloat\<close>, the pull that of \<open>Number\<close>.
\<close>

record txn =
  id' :: jsval
  tipo :: jsval
  monto :: jsnum
  fecha :: jsval
  descripcion :: jsval
  categoria :: jsval
  metodoPago :: jsval
  usuario :: jsval
  createdAt :: jsval

datatype sync_status = Pending | Synced

text \<open>
  A row of the table \<open>transactions\<close>: the transaction, the auto-incremented primary key
  \<open>localId\<close>, \<open>syncStatus\<close> (\<open>'pending'\<close> or \<open>'synced'\<close>) and the photo \<open>comprobante\<close>.
\<close>

record row = txn +
  localId :: nat
  syncStatus :: sync_status
  comprobante :: jsval

text \<open>
  The database: the rows of \<open>transactions\<close> in primary-key order (the order of
  \<open>toArray()\<close>), the key generator of \<open>++localId\<close>, and the last-pull watermark of the
  settings table.
\<close>

record store =
  transactions :: "row list"
  nextLocalId :: nat
  lastSync :: "string option"

definition emptyStore :: store where
  "emptyStore = \<lparr>transactions = [], nextLocalId = 1, lastSync = None\<rparr>"

text \<open>
  \<open>addTransaction(transaction)\<close>: the spread copies the fields of the argument, then
  \<open>syncStatus\<close> and \<open>createdAt\<close> are overridden; the table assigns the next key. \<open>now\<close>
  is \<open>new Date().toISOString()\<close>. The result is the new store and the key.
\<close>

definition addTransaction :: "string \<Rightarrow> row \<Rightarrow> store \<Rightarrow> store \<times> nat" where
  "addTransaction now transaction s =
     (s\<lparr>transactions := transactions s @
          [transaction\<lparr>syncStatus := Pending, createdAt := JStr now, localId := nextLocalId s\<rparr>],
        nextLocalId := Suc (nextLocalId s)\<rparr>,
      nextLocalId s)"

definition getPendingTransactions :: "store \<Rightarrow> row list" where
  "getPendingTransactions s = filter (\<lambda>t. syncStatus t = Pending) (transactions s)"

definition markAsSynced :: "nat list \<Rightarrow> store \<Rightarrow> store" where
  "markAsSynced localIds s =
     s\<lparr>transactions :=
         map (\<lambda>t. if localId t \<in> set localIds then t\<lparr>syncStatus := Synced\<rparr> else t)
           (transactions s)\<rparr>"

subsection \<open>Date ranges\<close>

text \<open>
  A \<open>Date\<close> is its time value in milliseconds since the epoch, \<open>None\<close> for an invalid
  date. \<open>new Date(x)\<close> is the parameter \<open>toDate\<close>; for a calendar date \<open>'YYYY-MM-DD'\<close>
  it is midnight UTC of that day, a multiple of \<open>msPerDay\<close>.

  The time zone of the host is a pair of parameters, as in the language specification:
  \<open>localTime\<close> takes an instant to the local wall-clock time (\<open>LocalTime(t)\<close>), and \<open>utc\<close>
  takes a wall-clock time back to an instant (\<open>UTC(t)\<close>). They follow the rules of the
  zone, daylight saving time included. The limit of \<open>TimeClip\<close> is not modelled.
\<close>

definition msPerDay :: int where
  "msPerDay = 86400000"

text \<open>
  \<open>date.setHours(0, 0, 0, 0)\<close>: the wall-clock time of \<open>d\<close> is cut to the start of its
  day (\<open>MakeDate(Day(t), 0)\<close>) and taken back to an instant.
\<close>

definition setHours_start :: "(int \<Rightarrow> int) \<Rightarrow> (int \<Rightarrow> int) \<Rightarrow> int \<Rightarrow> int" where
  "setHours_start localTime utc d = utc (localTime d - localTime d mod msPerDay)"

text \<open>
  \<open>date.setHours(23, 59, 59, 999)\<close>: the last millisecond of the wall-clock day of \<open>d\<close>,
  taken back to an instant.
\<close>

definition setHours_end :: "(int \<Rightarrow> int) \<Rightarrow> (int \<Rightarrow> int) \<Rightarrow> int \<Rightarrow> int" where
  "setHours_end localTime utc d =
     utc (localTime d - localTime d mod msPerDay + (msPerDay - 1))"

text \<open>\<open>x <= y\<close> on dates: false as soon as one of them is invalid.\<close>

fun date_le :: "int option \<Rightarrow> int option \<Rightarrow> bool" where
  "date_le (Some x) (Some y) = (x \<le> y)"
| "date_le _ _ = False"

definition getTransactionsByDateRange ::
  "(jsval \<Rightarrow> int option) \<Rightarrow> (int \<Rightarrow> int) \<Rightarrow> (int \<Rightarrow> int) \<Rightarrow> jsval \<Rightarrow> jsval \<Rightarrow> store
     \<Rightarrow> row list" where
  "getTransactionsByDateRange toDate localTime utc startDate endDate s =
     (let start = map_option (setHours_start localTime utc) (toDate startDate);
          end = map_option (setHours_end localTime utc) (toDate endDate);
          all = transactions s
      in filter (\<lambda>t. let d = toDate (fecha t) in date_le start d \<and> date_le d end) all)"

subsection \<open>Summaries\<close>

record summary =
  totalIngresos :: jsnum
  totalGastos :: jsnum
  balance :: jsnum
  transacciones :: nat

text \<open>
  The body of the \<open>forEach\<close> of \<open>getSummary\<close> and of \<open>getTotalBalance\<close>, on the pair of
  running totals (income, expense).
\<close>

definition add_to_totals :: "(rat \<Rightarrow> jsnum) \<Rightarrow> row \<Rightarrow> jsnum \<times> jsnum \<Rightarrow> jsnum \<times> jsnum" where
  "add_to_totals rnd t acc =
     (if tipo t = JStr ''ingreso'' then (js_add rnd (fst acc) (monto t), snd acc)
      else (fst acc, js_add rnd (snd acc) (monto t)))"

definition getSummary ::
  "(rat \<Rightarrow> jsnum) \<Rightarrow> (jsval \<Rightarrow> int option) \<Rightarrow> (int \<Rightarrow> int) \<Rightarrow> (int \<Rightarrow> int) \<Rightarrow> jsval \<Rightarrow> jsval
     \<Rightarrow> store \<Rightarrow> summary" where
  "getSummary rnd toDate localTime utc startDate endDate s =
     (let txs = getTransactionsByDateRange toDate localTime utc startDate endDate s;
          totals = fold (add_to_totals rnd) txs (Fin 0, Fin 0)
      in \<lparr>totalIngresos = fst totals, totalGastos = snd totals,
          balance = js_sub rnd (fst totals) (snd totals), transacciones = length txs\<rparr>)"

record total_balance =
  ingresos :: jsnum
  gastos :: jsnum
  balance' :: jsnum

definition getTotalBalance :: "(rat \<Rightarrow> jsnum) \<Rightarrow> store \<Rightarrow> total_balance" where
  "getTotalBalance rnd s =
     (let totals = fold (add_to_totals rnd) (transactions s) (Fin 0, Fin 0)
      in \<lparr>ingresos = fst totals, gastos = snd totals,
          balance' = js_sub rnd (fst totals) (snd totals)\<rparr>)"

section \<open>Synchronisation (sync.js)\<close>

text \<open>
  What the host gives to a sync: \<open>navigator.onLine\<close> and the value of
  \<open>localStorage.getItem('api_url') || ''\<close>.
\<close>

record env =
  onLine :: bool
  api_url :: string

text \<open>
  The outcome of a \<open>fetch\<close>: \<open>Throws\<close> when the promise rejects (or the body cannot be
  read), otherwise a response with its \<open>ok\<close> flag and its body.
\<close>

datatype 'a response = Throws | Response bool 'a

subsection \<open>Push\<close>

text \<open>The object built for each pending record, \<open>sync.js\<close> lines 44-54.\<close>

definition push_fields :: "row \<Rightarrow> txn" where
  "push_fields t =
     \<lparr>id' = id' t, tipo = tipo t, monto = monto t, fecha = fecha t,
      descripcion = descripcion t,
      categoria = or_else (categoria t) (JStr ''general''),
      metodoPago = metodoPago t, usuario = usuario t, createdAt = createdAt t\<rparr>"

text \<open>The array \<open>transactions\<close> of the request body.\<close>

definition push_body :: "row list \<Rightarrow> txn list" where
  "push_body pending = map push_fields pending"

record push_result =
  synced :: nat
  pending :: nat

text \<open>
  \<open>pushPendingTransactions()\<close>. The endpoint \<open>POST /api/sync\<close> is the parameter \<open>post\<close>,
  from the array of the request body to the outcome of the \<open>fetch\<close>. Faults of the local
  storage are not modelled.
\<close>

definition pushPendingTransactions ::
  "env \<Rightarrow> (txn list \<Rightarrow> unit response) \<Rightarrow> store \<Rightarrow> store \<times> push_result" where
  "pushPendingTransactions e post s =
     (if \<not> onLine e \<or> api_url e = [] then (s, \<lparr>synced = 0, pending = 0\<rparr>)
      else
        let pending_rows = getPendingTransactions s in
        if length pending_rows = 0 then (s, \<lparr>synced = 0, pending = 0\<rparr>)
        else
          (case post (push_body pending_rows) of
             Response ok _ \<Rightarrow>
               if ok then
                 let localIds = map localId pending_rows
                 in (markAsSynced localIds s, \<lparr>synced = length localIds, pending = 0\<rparr>)
               else (s, \<lparr>synced = 0, pending = length pending_rows\<rparr>)
           | Throws \<Rightarrow> (s, \<lparr>synced = 0, pending = length (getPendingTransactions s)\<rparr>)))"

subsection \<open>Pull\<close>

text \<open>
  A record of the remote: a JSON object, as the value of each of its properties
  (\<open>JUndefined\<close> for a property it does not have). Every element of the array
  \<open>data.transactions\<close> is taken to be an object.
\<close>

type_synonym json = "string \<Rightarrow> jsval"

text \<open>
  The object handed to \<open>upsertRemoteTransaction\<close>, \<open>sync.js\<close> lines 94-104. \<open>now\<close> is
  \<open>new Date().toISOString()\<close>, read once for a pull.
\<close>

definition remote_fields :: "(string \<Rightarrow> jsnum) \<Rightarrow> string \<Rightarrow> json \<Rightarrow> txn" where
  "remote_fields strToNum now t =
     \<lparr>id' = t ''id'', tipo = t ''tipo'', monto = Number strToNum (t ''monto''),
      fecha = t ''fecha'',
      descripcion = or_else (t ''descripcion'') (JStr ''''),
      categoria = or_else (t ''categoria'') (JStr ''general''),
      metodoPago = or_else (t ''metodoPago'') (JStr ''efectivo''),
      usuario = or_else (t ''usuario'') (JStr ''''),
      createdAt = or_else (t ''createdAt'') (JStr now)\<rparr>"

text \<open>
  The \<open>for\<close> loop of \<open>pullRemoteTransactions\<close>, with the store and the counter
  \<open>inserted\<close>. \<open>upsertRemoteTransaction\<close> of \<open>db.js\<close> is the parameter \<open>upsert\<close>.
\<close>

fun pull_loop ::
  "(txn \<Rightarrow> store \<Rightarrow> store \<times> bool) \<Rightarrow> (string \<Rightarrow> jsnum) \<Rightarrow> string \<Rightarrow> json list \<Rightarrow> store \<Rightarrow> nat
     \<Rightarrow> store \<times> nat" where
  "pull_loop upsert strToNum now [] s inserted = (s, inserted)"
| "pull_loop upsert strToNum now (t # ts) s inserted =
     (if \<not> truthy (t ''id'') then pull_loop upsert strToNum now ts s inserted
      else
        (case upsert (remote_fields strToNum now t) s of
           (s', wasNew) \<Rightarrow>
             pull_loop upsert strToNum now ts s' (if wasNew then inserted + 1 else inserted)))"

text \<open>
  Modelled from the spec: \<open>setLastSyncTimestamp\<close> is imported from \<open>db.js\<close>, whose source does
  not define it. The spec: "Record the current time as the last-sync watermark (persisted
  setting)".
\<close>

definition setLastSyncTimestamp :: "string \<Rightarrow> store \<Rightarrow> store" where
  "setLastSyncTimestamp now s = s\<lparr>lastSync := Some now\<rparr>"

text \<open>
  \<open>pullRemoteTransactions()\<close>. The outcome of \<open>GET /api/transactions\<close> is the parameter
  \<open>reply\<close>; its body is \<open>data.transactions\<close>, \<open>None\<close> when the property is missing. The
  result is the new store and the count \<open>pulled\<close>. Faults of the local storage are not
  modelled.
\<close>

definition pullRemoteTransactions ::
  "(txn \<Rightarrow> store \<Rightarrow> store \<times> bool) \<Rightarrow> (string \<Rightarrow> jsnum) \<Rightarrow> env \<Rightarrow> json list option response
     \<Rightarrow> string \<Rightarrow> store \<Rightarrow> store \<times> nat" where
  "pullRemoteTransactions upsert strToNum e reply now s =
     (if \<not> onLine e \<or> api_url e = [] then (s, 0)
      else
        (case reply of
           Throws \<Rightarrow> (s, 0)
         | Response ok data \<Rightarrow>
             if \<not> ok then (s, 0)
             else
               let remoteTransactions = (case data of None \<Rightarrow> [] | Some ts \<Rightarrow> ts)
               in (case pull_loop upsert strToNum now remoteTransactions s 0 of
                     (s', inserted) \<Rightarrow> (setLastSyncTimestamp now s', inserted))))"

subsection \<open>Push, then pull\<close>

record sync_result = push_result +
  pulled :: nat

definition syncPendingTransactions ::
  "(txn \<Rightarrow> store \<Rightarrow> store \<times> bool) \<Rightarrow> (string \<Rightarrow> jsnum) \<Rightarrow> env \<Rightarrow> (txn list \<Rightarrow> unit response)
     \<Rightarrow> json list option response \<Rightarrow> string \<Rightarrow> store \<Rightarrow> store \<times> sync_result" where
  "syncPendingTransactions upsert strToNum e post reply now s =
     (case pushPendingTransactions e post s of
        (s1, pushResult) \<Rightarrow>
          (case pullRemoteTransactions upsert strToNum e reply now s1 of
             (s2, n) \<Rightarrow>
               (s2, \<lparr>synced = synced pushResult, pending = pending pushResult, pulled = n\<rparr>)))"

section \<open>The upsert of a remote record\<close>

text \<open>
  Modelled from the spec: the row that \<open>upsertRemoteTransaction\<close> inserts, "insert with
  syncState = synced". It has the nine fields of the remote record, the key \<open>k\<close> that the
  table assigns, and no photo.
\<close>

definition insert_fields :: "txn \<Rightarrow> nat \<Rightarrow> row" where
  "insert_fields t k =
     \<lparr>id' = id' t, tipo = tipo t, monto = monto t, fecha = fecha t,
      descripcion = descripcion t, categoria = categoria t, metodoPago = metodoPago t,
      usuario = usuario t, createdAt = createdAt t,
      localId = k, syncStatus = Synced, comprobante = JUndefined\<rparr>"

text \<open>
  Modelled from the spec: the row that \<open>upsertRemoteTransaction\<close> leaves in the place of a
  synced row \<open>r\<close>, "overwrite fields and keep synced". The nine fields are those of the
  remote record; the key, \<open>syncStatus\<close> and the photo stay.
\<close>

definition overwrite_fields :: "txn \<Rightarrow> row \<Rightarrow> row" where
  "overwrite_fields t r =
     r\<lparr>id' := id' t, tipo := tipo t, monto := monto t, fecha := fecha t,
       descripcion := descripcion t, categoria := categoria t, metodoPago := metodoPago t,
       usuario := usuario t, createdAt := createdAt t\<rparr>"

text \<open>
  Modelled from the spec: what \<open>upsertRemoteTransaction\<close> does to the rows of the table,
  and whether it inserted one. The first row that has the identity of \<open>t\<close> decides: a
  synced row is overwritten, a pending row stays and the remote copy is dropped; when no
  row has the identity, a new row with the key \<open>k\<close> is added at the end.
\<close>

fun upsert_rows :: "txn \<Rightarrow> nat \<Rightarrow> row list \<Rightarrow> row list \<times> bool" where
  "upsert_rows t k [] = ([insert_fields t k], True)"
| "upsert_rows t k (r # rs) =
     (if id' r = id' t then
        (if syncStatus r = Synced then (overwrite_fields t r # rs, False) else (r # rs, False))
      else (r # fst (upsert_rows t k rs), snd (upsert_rows t k rs)))"

text \<open>
  Modelled from the spec: \<open>upsertRemoteTransaction\<close> is imported from \<open>db.js\<close>, whose source
  does not define it. The spec: "if no local record has this globalId, insert with
  syncState = synced; if one exists, and its local syncState is already synced, overwrite
  fields and keep synced; if one exists with syncState = pending, the remote copy is
  discarded (local pending edit wins). Returns whether a new record was inserted".
\<close>

definition upsertRemoteTransaction :: "txn \<Rightarrow> store \<Rightarrow> store \<times> bool" where
  "upsertRemoteTransaction t s =
     (case upsert_rows t (nextLocalId s) (transactions s) of
        (rows', wasNew) \<Rightarrow>
          (s\<lparr>transactions := rows',
             nextLocalId := (if wasNew then Suc (nextLocalId s) else nextLocalId s)\<rparr>,
           wasNew))"

section \<open>Definitions in the words of the specification\<close>

text \<open>
  The specification's request body, in its own words: each pending record projected onto
  the nine wire fields (id, kind, amount, date, description, category, paymentMethod,
  author, createdAt), nothing changed. It is compared with \<open>push_fields\<close> below.
\<close>

definition wire_projection :: "row \<Rightarrow> txn" where
  "wire_projection t =
     \<lparr>id' = id' t, tipo = tipo t, monto = monto t, fecha = fecha t,
      descripcion = descripcion t, categoria = categoria t,
      metodoPago = metodoPago t, usuario = usuario t, createdAt = createdAt t\<rparr>"

text \<open>
  The specification's expense total, in its own words: the sum of the amounts of the
  expense transactions, those whose kind is \<open>'gasto'\<close>. It is compared with the
  \<open>totalGastos\<close> of \<open>getSummary\<close> below.
\<close>

definition spec_totalExpense :: "(rat \<Rightarrow> jsnum) \<Rightarrow> row list \<Rightarrow> jsnum" where
  "spec_totalExpense rnd txs =
     js_sum rnd (map monto (filter (\<lambda>t. tipo t = JStr ''gasto'') txs))"

section \<open>Auxiliary definitions\<close>

text \<open>
  The upsert of each record of a list in turn, counting the insertions: what the loop of a
  pull does with the records it keeps.
\<close>

fun upsert_each :: "(txn \<Rightarrow> store \<Rightarrow> store \<times> bool) \<Rightarrow> txn list \<Rightarrow> store \<Rightarrow> nat \<Rightarrow> store \<times> nat" where
  "upsert_each upsert [] s inserted = (s, inserted)"
| "upsert_each upsert (t # ts) s inserted =
     (case upsert t s of
        (s', wasNew) \<Rightarrow> upsert_each upsert ts s' (if wasNew then inserted + 1 else inserted))"

text \<open>The rows after the upsert of each record of a list; \<open>k\<close> is the next key.\<close>

fun upsert_all :: "txn list \<Rightarrow> nat \<Rightarrow> row list \<Rightarrow> row list" where
  "upsert_all [] k rs = rs"
| "upsert_all (t # ts) k rs =
     upsert_all ts (if snd (upsert_rows t k rs) then Suc k else k) (fst (upsert_rows t k rs))"

text \<open>
  What upserts do to one row: a row that is synced takes the fields of a record with its
  identity.
\<close>

definition settle_step :: "txn \<Rightarrow> row \<Rightarrow> row" where
  "settle_step t r = (if id' r = id' t \<and> syncStatus r = Synced then overwrite_fields t r else r)"

definition settle :: "txn list \<Rightarrow> row \<Rightarrow> row" where
  "settle ts r = fold settle_step ts r"

text \<open>\<open>response.ok\<close>, false when the \<open>fetch\<close> throws.\<close>

fun response_ok :: "'a response \<Rightarrow> bool" where
  "response_ok Throws = False"
| "response_ok (Response ok data) = ok"

text \<open>The guards a pull passes before it reads the remote records.\<close>

definition sync_enabled :: "env \<Rightarrow> 'a response \<Rightarrow> bool" where
  "sync_enabled e reply \<longleftrightarrow> onLine e \<and> api_url e \<noteq> [] \<and> response_ok reply"

text \<open>The records a reply delivers: \<open>data.transactions || []\<close> of a successful response.\<close>

definition delivered :: "json list option response \<Rightarrow> json list" where
  "delivered reply =
     (case reply of
        Throws \<Rightarrow> []
      | Response ok data \<Rightarrow> if ok then (case data of None \<Rightarrow> [] | Some ts \<Rightarrow> ts) else [])"

text \<open>The records a pull hands to the upsert.\<close>

definition upserted :: "(string \<Rightarrow> jsnum) \<Rightarrow> string \<Rightarrow> env \<Rightarrow> json list option response \<Rightarrow> txn list" where
  "upserted strToNum now e reply =
     (if onLine e \<and> api_url e \<noteq> [] then
        map (remote_fields strToNum now) (filter (\<lambda>t. truthy (t ''id'')) (delivered reply))
      else [])"

text \<open>None of the fields that the pull fills in is missing.\<close>

definition has_remote_fields :: "row \<Rightarrow> bool" where
  "has_remote_fields r \<longleftrightarrow>
     descripcion r \<noteq> JUndefined \<and> categoria r \<noteq> JUndefined \<and> metodoPago r \<noteq> JUndefined
     \<and> usuario r \<noteq> JUndefined \<and> createdAt r \<noteq> JUndefined"

text \<open>The number of local records that the identity \<open>x\<close> identifies.\<close>

definition count_id :: "jsval \<Rightarrow> store \<Rightarrow> nat" where
  "count_id x s = length (filter (\<lambda>r. id' r = x) (transactions s))"

text \<open>
  Sequences of additions and pulls: \<open>Add now transaction\<close> is
  \<open>addTransaction(transaction)\<close> at the time \<open>now\<close>, \<open>Pull e reply now\<close> a pull with the
  upsert of the specification.
\<close>

datatype op = Add string row | Pull env "json list option response" string

fun apply_op :: "(string \<Rightarrow> jsnum) \<Rightarrow> op \<Rightarrow> store \<Rightarrow> store" where
  "apply_op strToNum (Add now transaction) s = fst (addTransaction now transaction s)"
| "apply_op strToNum (Pull e reply now) s =
     fst (pullRemoteTransactions upsertRemoteTransaction strToNum e reply now s)"

fun run_ops :: "(string \<Rightarrow> jsnum) \<Rightarrow> op list \<Rightarrow> store \<Rightarrow> store" where
  "run_ops strToNum [] s = s"
| "run_ops strToNum (x # xs) s = run_ops strToNum xs (apply_op strToNum x s)"

text \<open>
  Each addition of the sequence brings an identity that no record of the table has at that
  moment.
\<close>

fun fresh_ids :: "(string \<Rightarrow> jsnum) \<Rightarrow> op list \<Rightarrow> store \<Rightarrow> bool" where
  "fresh_ids strToNum [] s = True"
| "fresh_ids strToNum (Add now transaction # xs) s =
     (id' transaction \<notin> id' ` set (transactions s)
      \<and> fresh_ids strToNum xs (apply_op strToNum (Add now transaction) s))"
| "fresh_ids strToNum (Pull e reply now # xs) s =
     fresh_ids strToNum xs (apply_op strToNum (Pull e reply now) s)"

section \<open>Sample data\<close>

text \<open>A row, a store and a reading of dates for the concrete instances below.\<close>

definition sample_row :: "nat \<Rightarrow> string \<Rightarrow> string \<Rightarrow> rat \<Rightarrow> string \<Rightarrow> sync_status \<Rightarrow> row" where
  "sample_row k i kind amount day st =
     \<lparr>id' = JStr i, tipo = JStr kind, monto = Fin amount, fecha = JStr day,
      descripcion = JStr '''', categoria = JStr ''general'', metodoPago = JStr ''efectivo'',
      usuario = JStr ''Ana'', createdAt = JStr ''2024-03-15T10:00:00.000Z'',
      localId = k, syncStatus = st, comprobante = JNull\<rparr>"

definition sample_toDate :: "jsval \<Rightarrow> int option" where
  "sample_toDate v =
     (if v = JStr ''2024-03-14'' then Some 1710374400000
      else if v = JStr ''2024-03-15'' then Some 1710460800000
      else if v = JStr ''2024-03-16'' then Some 1710547200000
      else None)"

text \<open>
  A zone six hours behind UTC all year, and a rounding for totals that are doubles already
  (the totals of the samples are whole numbers far below \<open>2^53\<close>).
\<close>

definition sample_localTime :: "int \<Rightarrow> int" where
  "sample_localTime t = t - 21600000"

definition sample_utc :: "int \<Rightarrow> int" where
  "sample_utc w = w + 21600000"

definition sample_rnd :: "rat \<Rightarrow> jsnum" where
  "sample_rnd q = Fin q"

definition sample_store :: store where
  "sample_store =
     \<lparr>transactions =
        [sample_row 1 ''a'' ''ingreso'' 500 ''2024-03-14'' Synced,
         sample_row 2 ''b'' ''gasto'' 120 ''2024-03-15'' Pending,
         sample_row 3 ''c'' ''ingreso'' 80 ''2024-03-16'' Pending,
         sample_row 4 ''d'' ''gasto'' 30 ''sin fecha'' Synced],
      nextLocalId = 5, lastSync = None\<rparr>"

definition sample_remote :: "string \<Rightarrow> rat \<Rightarrow> json" where
  "sample_remote i amount =
     (\<lambda>k. if k = ''id'' then JStr i
          else if k = ''tipo'' then JStr ''ingreso''
          else if k = ''monto'' then JNum (Fin amount)
          else if k = ''fecha'' then JStr ''2024-03-15''
          else JUndefined)"

definition sample_env :: env where
  "sample_env = \<lparr>onLine = True, api_url = ''https://rancho.example''\<rparr>"

text \<open>A reading of strings as numbers that knows no number, and an endpoint that accepts.\<close>

definition sample_strToNum :: "string \<Rightarrow> jsnum" where
  "sample_strToNum x = NaN"

definition sample_post :: "txn list \<Rightarrow> unit response" where
  "sample_post b = Response True ()"

text \<open>A remote ledger of one record, which has no \<open>createdAt\<close>.\<close>

definition sample_reply :: "json list option response" where
  "sample_reply = Response True (Some [sample_remote ''a'' 200])"

text \<open>A store with a record that has no kind, as a remote record without \<open>tipo\<close> leaves.\<close>

definition odd_kind_store :: store where
  "odd_kind_store =
     \<lparr>transactions =
        [sample_row 1 ''a'' ''ingreso'' 500 ''2024-03-15'' Synced,
         (sample_row 2 ''b'' ''gasto'' 30 ''2024-03-15'' Synced)\<lparr>tipo := JUndefined\<rparr>],
      nextLocalId = 3, lastSync = None\<rparr>"

text \<open>
  The zone Atlantic/Azores around 27 October 2024. Until 01:00 UTC of that day the local
  time is UTC (summer time); from then on it is one hour behind. The local hour from 00:00
  to 01:00 of that day comes twice, and a wall-clock time in it is read with the offset
  before the change.
\<close>

definition azores_localTime :: "int \<Rightarrow> int" where
  "azores_localTime t = (if t < 1729990800000 then t else t - 3600000)"

definition azores_utc :: "int \<Rightarrow> int" where
  "azores_utc w = (if w < 1729990800000 then w else w + 3600000)"

definition azores_toDate :: "jsval \<Rightarrow> int option" where
  "azores_toDate v =
     (if v = JStr ''2024-10-27'' then Some 1729987200000
      else if v = JStr ''2024-10-28'' then Some 1730073600000
      else if v = JStr ''2024-10-29'' then Some 1730160000000
      else None)"

definition azores_store :: store where
  "azores_store =
     \<lparr>transactions =
        [sample_row 1 ''a'' ''gasto'' 10 ''2024-10-27'' Synced,
         sample_row 2 ''b'' ''gasto'' 20 ''2024-10-28'' Synced,
         sample_row 3 ''c'' ''gasto'' 40 ''2024-10-29'' Synced],
      nextLocalId = 4, lastSync = None\<rparr>"

section \<open>Properties of the summaries\<close>

lemma fold_add_to_totals:
  "fold (add_to_totals rnd) txs acc =
     (foldl (js_add rnd) (fst acc) (map monto (filter (\<lambda>t. tipo t = JStr ''ingreso'') txs)),
      foldl (js_add rnd) (snd acc) (map monto (filter (\<lambda>t. tipo t \<noteq> JStr ''ingreso'') txs)))"
proof (induction txs arbitrary: acc)
  case Nil
  show ?case by simp
next
  case (Cons t txs)
  have step: "add_to_totals rnd t acc =
     (if tipo t = JStr ''ingreso'' then (js_add rnd (fst acc) (monto t), snd acc)
      else (fst acc, js_add rnd (snd acc) (monto t)))"
    by (simp add: add_to_totals_def)
  have "fold (add_to_totals rnd) (t # txs) acc =
      fold (add_to_totals rnd) txs (add_to_totals rnd t acc)"
    by simp
  also have "\<dots> =
     (foldl (js_add rnd) (fst (add_to_totals rnd t acc))
        (map monto (filter (\<lambda>t. tipo t = JStr ''ingreso'') txs)),
      foldl (js_add rnd) (snd (add_to_totals rnd t acc))
        (map monto (filter (\<lambda>t. tipo t \<noteq> JStr ''ingreso'') txs)))"
    by (rule Cons.IH)
  finally show ?case
    unfolding step by (cases "tipo t = JStr ''ingreso''") simp_all
qed

lemma totals_from_zero:
  "fold (add_to_totals rnd) txs (Fin 0, Fin 0) =
     (js_sum rnd (map monto (filter (\<lambda>t. tipo t = JStr ''ingreso'') txs)),
      js_sum rnd (map monto (filter (\<lambda>t. tipo t \<noteq> JStr ''ingreso'') txs)))"
  by (simp add: fold_add_to_totals js_sum_def)

text \<open>
  C9. In \<open>getSummary\<close> and in \<open>getTotalBalance\<close> only the records whose \<open>tipo\<close> is
  exactly \<open>'ingreso'\<close> add to the income total; every other record, whatever its \<open>tipo\<close>
  (unknown, missing), adds its amount to the expense total. Each total is what the loop
  computes: the amounts added to \<open>0\<close> one after the other, in the order of the records,
  with the addition of doubles.
\<close>

theorem non_income_counts_as_expense:
  "totalIngresos (getSummary rnd toDate localTime utc startDate endDate s) =
     js_sum rnd (map monto (filter (\<lambda>t. tipo t = JStr ''ingreso'')
       (getTransactionsByDateRange toDate localTime utc startDate endDate s)))
   \<and> totalGastos (getSummary rnd toDate localTime utc startDate endDate s) =
     js_sum rnd (map monto (filter (\<lambda>t. tipo t \<noteq> JStr ''ingreso'')
       (getTransactionsByDateRange toDate localTime utc startDate endDate s)))
   \<and> ingresos (getTotalBalance rnd s) =
     js_sum rnd (map monto (filter (\<lambda>t. tipo t = JStr ''ingreso'') (transactions s)))
   \<and> gastos (getTotalBalance rnd s) =
     js_sum rnd (map monto (filter (\<lambda>t. tipo t \<noteq> JStr ''ingreso'') (transactions s)))"
  by (simp add: getSummary_def getTotalBalance_def Let_def totals_from_zero)

section \<open>Properties of the date range\<close>

text \<open>
  C7. The code does not do what the claim says. At the turn of the clocks the local day
  has 25 hours: in the zone of the Azores, for the range from 2024-10-27 to 2024-10-27,
  the last millisecond of the local day of the end is 00:59:59.999 UTC of the 28th, and
  the record dated 2024-10-28 (midnight UTC) is returned with that of the 27th.
\<close>

theorem date_range_returns_day_after_end:
  "getTransactionsByDateRange azores_toDate azores_localTime azores_utc
     (JStr ''2024-10-27'') (JStr ''2024-10-27'') azores_store =
   [sample_row 1 ''a'' ''gasto'' 10 ''2024-10-27'' Synced,
    sample_row 2 ''b'' ''gasto'' 20 ''2024-10-28'' Synced]"
proof -
  have start: "setHours_start azores_localTime azores_utc 1729987200000 = 1729987200000"
    by (simp add: setHours_start_def azores_localTime_def azores_utc_def msPerDay_def)
  have "end": "setHours_end azores_localTime azores_utc 1729987200000 = 1730077199999"
    by (simp add: setHours_end_def azores_localTime_def azores_utc_def msPerDay_def)
  show ?thesis
    by (simp add: getTransactionsByDateRange_def start "end" azores_toDate_def
        azores_store_def sample_row_def)
qed

text \<open>
  Where the code and the claim agree: in a zone whose offset \<open>tz\<close> never changes, when the
  bounds and the dates of the records are calendar dates (midnights UTC), the records
  returned are exactly those dated from \<open>startDate\<close> to \<open>endDate\<close>.
\<close>

lemma day_lower:
  fixes D :: int
  assumes "D dvd a" "D dvd d" "0 \<le> m" "m < D"
  shows "(a - m \<le> d) = (a \<le> d)"
proof
  assume le: "a - m \<le> d"
  from assms(1,2) obtain k j where kj: "a = D * k" "d = D * j"
    by (auto simp: dvd_def)
  have Dpos: "0 < D" using assms(3,4) by simp
  show "a \<le> d"
  proof (rule ccontr)
    assume "\<not> a \<le> d"
    then have "D * j < D * k" using kj by simp
    then have "j < k" using Dpos by (simp add: mult_less_cancel_left_pos)
    then have "j + 1 \<le> k" by simp
    then have "D * (j + 1) \<le> D * k" using Dpos by (simp add: mult_le_cancel_left_pos)
    then have "d + D \<le> a" using kj by (simp add: algebra_simps)
    with le assms(4) show False by simp
  qed
next
  assume "a \<le> d"
  with assms(3) show "a - m \<le> d" by simp
qed

lemma day_upper:
  fixes D :: int
  assumes "D dvd b" "D dvd d" "0 \<le> m" "m < D"
  shows "(d \<le> b - m + (D - 1)) = (d \<le> b)"
proof
  assume le: "d \<le> b - m + (D - 1)"
  from assms(1,2) obtain k j where kj: "b = D * k" "d = D * j"
    by (auto simp: dvd_def)
  have Dpos: "0 < D" using assms(3,4) by simp
  show "d \<le> b"
  proof (rule ccontr)
    assume "\<not> d \<le> b"
    then have "D * k < D * j" using kj by simp
    then have "k < j" using Dpos by (simp add: mult_less_cancel_left_pos)
    then have "k + 1 \<le> j" by simp
    then have "D * (k + 1) \<le> D * j" using Dpos by (simp add: mult_le_cancel_left_pos)
    then have "b + D \<le> d" using kj by (simp add: algebra_simps)
    with le assms(3) show False by simp
  qed
next
  assume "d \<le> b"
  with assms(4) show "d \<le> b - m + (D - 1)" by simp
qed

lemma constant_zone_bounds:
  assumes "a mod msPerDay = 0" "b mod msPerDay = 0" "d mod msPerDay = 0"
  shows "(setHours_start (\<lambda>t. t + tz) (\<lambda>w. w - tz) a \<le> d
          \<and> d \<le> setHours_end (\<lambda>t. t + tz) (\<lambda>w. w - tz) b) = (a \<le> d \<and> d \<le> b)"
proof -
  have pos: "(0::int) < msPerDay" by (simp add: msPerDay_def)
  have dv: "msPerDay dvd a" "msPerDay dvd b" "msPerDay dvd d"
    using assms by (simp_all add: dvd_eq_mod_eq_0)
  have m1: "0 \<le> (a + tz) mod msPerDay" "(a + tz) mod msPerDay < msPerDay"
    using pos by simp_all
  have m2: "0 \<le> (b + tz) mod msPerDay" "(b + tz) mod msPerDay < msPerDay"
    using pos by simp_all
  have s: "setHours_start (\<lambda>t. t + tz) (\<lambda>w. w - tz) a = a - (a + tz) mod msPerDay"
    and e: "setHours_end (\<lambda>t. t + tz) (\<lambda>w. w - tz) b =
        b - (b + tz) mod msPerDay + (msPerDay - 1)"
    by (simp_all add: setHours_start_def setHours_end_def)
  show ?thesis
    unfolding s e
    using day_lower [OF dv(1) dv(3) m1] day_upper [OF dv(2) dv(3) m2] by simp
qed

lemma constant_zone_calendar_dates:
  assumes "toDate startDate = Some a" and "a mod msPerDay = 0"
    and "toDate endDate = Some b" and "b mod msPerDay = 0"
    and "\<forall>t\<in>set (transactions s). \<forall>d. toDate (fecha t) = Some d \<longrightarrow> d mod msPerDay = 0"
  shows "getTransactionsByDateRange toDate (\<lambda>t. t + tz) (\<lambda>w. w - tz) startDate endDate s =
           filter (\<lambda>t. date_le (Some a) (toDate (fecha t)) \<and> date_le (toDate (fecha t)) (Some b))
             (transactions s)"
  unfolding getTransactionsByDateRange_def Let_def
proof (rule filter_cong [OF refl])
  fix t assume "t \<in> set (transactions s)"
  with assms(5) have mid: "\<And>d. toDate (fecha t) = Some d \<Longrightarrow> d mod msPerDay = 0"
    by blast
  show "(date_le (map_option (setHours_start (\<lambda>t. t + tz) (\<lambda>w. w - tz)) (toDate startDate))
            (toDate (fecha t)) \<and>
         date_le (toDate (fecha t))
            (map_option (setHours_end (\<lambda>t. t + tz) (\<lambda>w. w - tz)) (toDate endDate)))
      = (date_le (Some a) (toDate (fecha t)) \<and> date_le (toDate (fecha t)) (Some b))"
  proof (cases "toDate (fecha t)")
    case None
    then show ?thesis by (simp add: assms(1) assms(3))
  next
    case (Some d)
    with mid have "d mod msPerDay = 0" by simp
    from constant_zone_bounds [OF assms(2) assms(4) this, of tz] Some show ?thesis
      by (simp add: assms(1) assms(3))
  qed
qed

section \<open>The summary of a range\<close>

text \<open>
  C8, as stated, fails for the expense total: a record in range whose kind is neither
  \<open>'ingreso'\<close> nor \<open>'gasto'\<close> is added to \<open>totalGastos\<close>, which is then not the sum of the
  amounts of the expense transactions.
\<close>

theorem unknown_kind_in_expense_total:
  "totalGastos (getSummary sample_rnd sample_toDate sample_localTime sample_utc
      (JStr ''2024-03-15'') (JStr ''2024-03-15'') odd_kind_store)
   \<noteq> spec_totalExpense sample_rnd
       (getTransactionsByDateRange sample_toDate sample_localTime sample_utc
          (JStr ''2024-03-15'') (JStr ''2024-03-15'') odd_kind_store)"
proof -
  have rng: "getTransactionsByDateRange sample_toDate sample_localTime sample_utc
      (JStr ''2024-03-15'') (JStr ''2024-03-15'') odd_kind_store = transactions odd_kind_store"
    by (simp add: getTransactionsByDateRange_def odd_kind_store_def sample_row_def
        sample_toDate_def setHours_start_def setHours_end_def msPerDay_def
        sample_localTime_def sample_utc_def)
  have code: "totalGastos (getSummary sample_rnd sample_toDate sample_localTime sample_utc
      (JStr ''2024-03-15'') (JStr ''2024-03-15'') odd_kind_store) = Fin 30"
    unfolding getSummary_def rng Let_def
    by (simp add: odd_kind_store_def sample_row_def add_to_totals_def sample_rnd_def)
  have spec: "spec_totalExpense sample_rnd (transactions odd_kind_store) = Fin 0"
    by (simp add: spec_totalExpense_def js_sum_def odd_kind_store_def sample_row_def)
  show ?thesis
    unfolding rng code spec by simp
qed

lemma own_day_in_range:
  assumes "toDate today = Some p" and "fecha t = today"
    and "setHours_start localTime utc p \<le> p" and "p \<le> setHours_end localTime utc p"
  shows "getTransactionsByDateRange toDate localTime utc today today (s\<lparr>transactions := [t]\<rparr>)
           = [t]"
  using assms by (simp add: getTransactionsByDateRange_def Let_def)

text \<open>
  C8, amended. \<open>getSummary\<close> aggregates over \<open>getTransactionsByDateRange\<close>: the income
  total is the sum of the amounts of the income records in range, the expense total the
  sum of the amounts of all the other records in range (the expense records, when every
  record in range is an income or an expense), the balance their difference and the count
  the number of records in range; the sums add the amounts to \<open>0\<close> in the order of the
  records, as doubles. After one income of 500 dated today is added to the empty store,
  \<open>getPendingTransactions\<close> returns exactly that record, and the summary of today, whose
  instant lies in its own local day, is 500, 0, 500, 1.
\<close>

theorem getSummary_aggregates_range:
  assumes "toDate today = Some p"
    and "setHours_start localTime utc p \<le> p" and "p \<le> setHours_end localTime utc p"
    and "rnd 500 = Fin 500"
    and "tipo tx = JStr ''ingreso''" and "monto tx = Fin 500" and "fecha tx = today"
  shows "(let txs = getTransactionsByDateRange toDate localTime utc startDate endDate s;
              r = getSummary rnd toDate localTime utc startDate endDate s
          in totalIngresos r =
               js_sum rnd (map monto (filter (\<lambda>t. tipo t = JStr ''ingreso'') txs))
           \<and> totalGastos r =
               js_sum rnd (map monto (filter (\<lambda>t. tipo t \<noteq> JStr ''ingreso'') txs))
           \<and> ((\<forall>t\<in>set txs. tipo t = JStr ''ingreso'' \<or> tipo t = JStr ''gasto'') \<longrightarrow>
                totalGastos r = spec_totalExpense rnd txs)
           \<and> balance r = js_sub rnd (totalIngresos r) (totalGastos r)
           \<and> transacciones r = length txs)
       \<and> (let s1 = fst (addTransaction now tx emptyStore)
          in getPendingTransactions s1 =
               [tx\<lparr>syncStatus := Pending, createdAt := JStr now, localId := 1\<rparr>]
           \<and> getSummary rnd toDate localTime utc today today s1 =
               \<lparr>totalIngresos = Fin 500, totalGastos = Fin 0, balance = Fin 500,
                transacciones = 1\<rparr>)"
proof -
  let ?txs = "getTransactionsByDateRange toDate localTime utc startDate endDate s"
  let ?sum = "getSummary rnd toDate localTime utc startDate endDate s"
  have totals: "totalIngresos ?sum =
        js_sum rnd (map monto (filter (\<lambda>t. tipo t = JStr ''ingreso'') ?txs))
      \<and> totalGastos ?sum =
        js_sum rnd (map monto (filter (\<lambda>t. tipo t \<noteq> JStr ''ingreso'') ?txs))
      \<and> balance ?sum = js_sub rnd (totalIngresos ?sum) (totalGastos ?sum)
      \<and> transacciones ?sum = length ?txs"
    by (simp add: getSummary_def Let_def totals_from_zero)
  have kinds: "totalGastos ?sum = spec_totalExpense rnd ?txs"
    if "\<forall>t\<in>set ?txs. tipo t = JStr ''ingreso'' \<or> tipo t = JStr ''gasto''"
  proof -
    have "filter (\<lambda>t. tipo t \<noteq> JStr ''ingreso'') ?txs =
        filter (\<lambda>t. tipo t = JStr ''gasto'') ?txs"
      by (rule filter_cong [OF refl]) (use that in auto)
    with totals show ?thesis
      by (simp add: spec_totalExpense_def)
  qed
  let ?r = "tx\<lparr>syncStatus := Pending, createdAt := JStr now, localId := 1\<rparr>"
  let ?s1 = "\<lparr>transactions = [?r], nextLocalId = 2, lastSync = None\<rparr>"
  have s1: "fst (addTransaction now tx emptyStore) = ?s1"
    by (simp add: addTransaction_def emptyStore_def)
  have pend: "getPendingTransactions ?s1 = [?r]"
    by (simp add: getPendingTransactions_def)
  have rng: "getTransactionsByDateRange toDate localTime utc today today ?s1 = [?r]"
    using own_day_in_range [of toDate today p ?r localTime utc
        "\<lparr>transactions = [], nextLocalId = 2, lastSync = None\<rparr>"] assms(1,2,3,7)
    by simp
  have summ: "getSummary rnd toDate localTime utc today today ?s1 =
      \<lparr>totalIngresos = Fin 500, totalGastos = Fin 0, balance = Fin 500, transacciones = 1\<rparr>"
    unfolding getSummary_def rng Let_def
    using assms(4,5,6) by (simp add: add_to_totals_def)
  show ?thesis
    unfolding Let_def s1 using totals kinds pend summ by simp
qed

theorem getSummary_aggregates_range_witness:
  "sample_toDate (JStr ''2024-03-15'') = Some 1710460800000
   \<and> setHours_start sample_localTime sample_utc 1710460800000 \<le> 1710460800000
   \<and> 1710460800000 \<le> setHours_end sample_localTime sample_utc 1710460800000
   \<and> sample_rnd 500 = Fin 500
   \<and> tipo (sample_row 0 ''a'' ''ingreso'' 500 ''2024-03-15'' Synced) = JStr ''ingreso''
   \<and> monto (sample_row 0 ''a'' ''ingreso'' 500 ''2024-03-15'' Synced) = Fin 500
   \<and> fecha (sample_row 0 ''a'' ''ingreso'' 500 ''2024-03-15'' Synced) = JStr ''2024-03-15''
   \<and> list_all (\<lambda>t. tipo t = JStr ''ingreso'' \<or> tipo t = JStr ''gasto'')
       (getTransactionsByDateRange sample_toDate sample_localTime sample_utc
          (JStr ''2024-03-14'') (JStr ''2024-03-16'') sample_store)
   \<and> totalGastos (getSummary sample_rnd sample_toDate sample_localTime sample_utc
         (JStr ''2024-03-14'') (JStr ''2024-03-16'') sample_store) = Fin 120
   \<and> getSummary sample_rnd sample_toDate sample_localTime sample_utc
         (JStr ''2024-03-15'') (JStr ''2024-03-15'')
         (fst (addTransaction ''2024-03-15T12:00:00.000Z''
            (sample_row 0 ''a'' ''ingreso'' 500 ''2024-03-15'' Synced) emptyStore)) =
       \<lparr>totalIngresos = Fin 500, totalGastos = Fin 0, balance = Fin 500, transacciones = 1\<rparr>"
proof -
  have h1: "sample_toDate (JStr ''2024-03-15'') = Some 1710460800000"
    by (simp add: sample_toDate_def)
  have h2: "setHours_start sample_localTime sample_utc 1710460800000 \<le> 1710460800000"
    and h3: "1710460800000 \<le> setHours_end sample_localTime sample_utc 1710460800000"
    by (simp_all add: setHours_start_def setHours_end_def sample_localTime_def sample_utc_def
        msPerDay_def)
  have h4: "sample_rnd 500 = Fin 500"
    by (simp add: sample_rnd_def)
  have h5: "tipo (sample_row 0 ''a'' ''ingreso'' 500 ''2024-03-15'' Synced) = JStr ''ingreso''"
    and h6: "monto (sample_row 0 ''a'' ''ingreso'' 500 ''2024-03-15'' Synced) = Fin 500"
    and h7: "fecha (sample_row 0 ''a'' ''ingreso'' 500 ''2024-03-15'' Synced) = JStr ''2024-03-15''"
    by (simp_all add: sample_row_def)
  have rng: "getTransactionsByDateRange sample_toDate sample_localTime sample_utc
      (JStr ''2024-03-14'') (JStr ''2024-03-16'') sample_store =
      [sample_row 1 ''a'' ''ingreso'' 500 ''2024-03-14'' Synced,
       sample_row 2 ''b'' ''gasto'' 120 ''2024-03-15'' Pending,
       sample_row 3 ''c'' ''ingreso'' 80 ''2024-03-16'' Pending]"
    by (simp add: getTransactionsByDateRange_def sample_store_def sample_row_def
        sample_toDate_def setHours_start_def setHours_end_def msPerDay_def
        sample_localTime_def sample_utc_def)
  have k: "\<forall>t\<in>set (getTransactionsByDateRange sample_toDate sample_localTime sample_utc
      (JStr ''2024-03-14'') (JStr ''2024-03-16'') sample_store).
        tipo t = JStr ''ingreso'' \<or> tipo t = JStr ''gasto''"
    unfolding rng by (simp add: sample_row_def)
  note inst = getSummary_aggregates_range
      [where toDate = sample_toDate and today = "JStr ''2024-03-15''" and p = 1710460800000
        and localTime = sample_localTime and utc = sample_utc and rnd = sample_rnd
        and tx = "sample_row 0 ''a'' ''ingreso'' 500 ''2024-03-15'' Synced"
        and startDate = "JStr ''2024-03-14''" and endDate = "JStr ''2024-03-16''"
        and s = sample_store and now = "''2024-03-15T12:00:00.000Z''",
       OF h1 h2 h3 h4 h5 h6 h7]
  from inst k have "totalGastos (getSummary sample_rnd sample_toDate sample_localTime sample_utc
        (JStr ''2024-03-14'') (JStr ''2024-03-16'') sample_store) =
      spec_totalExpense sample_rnd
        (getTransactionsByDateRange sample_toDate sample_localTime sample_utc
          (JStr ''2024-03-14'') (JStr ''2024-03-16'') sample_store)"
    unfolding Let_def by blast
  then have g: "totalGastos (getSummary sample_rnd sample_toDate sample_localTime sample_utc
        (JStr ''2024-03-14'') (JStr ''2024-03-16'') sample_store) = Fin 120"
    unfolding rng by (simp add: spec_totalExpense_def js_sum_def sample_row_def sample_rnd_def)
  from inst have a: "getSummary sample_rnd sample_toDate sample_localTime sample_utc
         (JStr ''2024-03-15'') (JStr ''2024-03-15'')
         (fst (addTransaction ''2024-03-15T12:00:00.000Z''
            (sample_row 0 ''a'' ''ingreso'' 500 ''2024-03-15'' Synced) emptyStore)) =
       \<lparr>totalIngresos = Fin 500, totalGastos = Fin 0, balance = Fin 500, transacciones = 1\<rparr>"
    unfolding Let_def by blast
  from k have k': "list_all (\<lambda>t. tipo t = JStr ''ingreso'' \<or> tipo t = JStr ''gasto'')
       (getTransactionsByDateRange sample_toDate sample_localTime sample_utc
          (JStr ''2024-03-14'') (JStr ''2024-03-16'') sample_store)"
    by (simp add: list_all_iff)
  from h1 h2 h3 h4 h5 h6 h7 k' g a show ?thesis
    by (intro conjI)
qed

section \<open>Properties of the push\<close>

lemma markAsSynced_pending:
  "transactions (markAsSynced (map localId (getPendingTransactions s)) s) =
     map (\<lambda>t. t\<lparr>syncStatus := Synced\<rparr>) (transactions s)"
proof -
  have "(if localId t \<in> set (map localId (getPendingTransactions s))
         then t\<lparr>syncStatus := Synced\<rparr> else t) = t\<lparr>syncStatus := Synced\<rparr>"
    if "t \<in> set (transactions s)" for t
  proof (cases "syncStatus t")
    case Pending
    with that have "t \<in> set (getPendingTransactions s)"
      by (simp add: getPendingTransactions_def)
    then show ?thesis by simp
  next
    case Synced
    then show ?thesis by simp
  qed
  then show ?thesis
    by (simp add: markAsSynced_def)
qed

text \<open>
  C3. When the endpoint is configured and the device is online, a push whose network call
  fails, or whose response is not a success, leaves the store as it is and returns
  \<open>synced = 0\<close> with \<open>pending\<close> the number of pending records.
\<close>

theorem push_failure_changes_nothing:
  assumes "onLine e" and "api_url e \<noteq> []"
    and "post (push_body (getPendingTransactions s)) = Throws
         \<or> post (push_body (getPendingTransactions s)) = Response False ()"
  shows "pushPendingTransactions e post s =
           (s, \<lparr>synced = 0, pending = length (getPendingTransactions s)\<rparr>)"
  using assms by (auto simp add: pushPendingTransactions_def Let_def)

theorem push_failure_changes_nothing_witness:
  "onLine \<lparr>onLine = True, api_url = ''https://rancho.example''\<rparr>
   \<and> api_url \<lparr>onLine = True, api_url = ''https://rancho.example''\<rparr> \<noteq> []
   \<and> ((\<lambda>b. Throws) (push_body (getPendingTransactions sample_store)) = Throws
        \<or> (\<lambda>b. Throws) (push_body (getPendingTransactions sample_store)) = Response False ())
   \<and> pushPendingTransactions \<lparr>onLine = True, api_url = ''https://rancho.example''\<rparr>
        (\<lambda>b. Throws) sample_store = (sample_store, \<lparr>synced = 0, pending = 2\<rparr>)"
proof -
  have n: "length (getPendingTransactions sample_store) = 2"
    by (simp add: getPendingTransactions_def sample_store_def sample_row_def)
  from push_failure_changes_nothing
    [of "\<lparr>onLine = True, api_url = ''https://rancho.example''\<rparr>" "\<lambda>b. Throws" sample_store]
  show ?thesis
    by (simp add: n)
qed

text \<open>
  C4. When there are pending records and the remote answers the batch with a success
  status, every record of the batch is \<open>synced\<close> afterwards, the push returns
  \<open>synced\<close> equal to the size of the batch with \<open>pending = 0\<close>, and no record is
  pending afterwards.
\<close>

theorem push_success_marks_batch:
  assumes "onLine e" and "api_url e \<noteq> []"
    and "getPendingTransactions s \<noteq> []"
    and "post (push_body (getPendingTransactions s)) = Response True ()"
  shows "synced (snd (pushPendingTransactions e post s)) = length (getPendingTransactions s)
       \<and> pending (snd (pushPendingTransactions e post s)) = 0
       \<and> getPendingTransactions (fst (pushPendingTransactions e post s)) = []
       \<and> (\<forall>t\<in>set (getPendingTransactions s).
            t\<lparr>syncStatus := Synced\<rparr> \<in> set (transactions (fst (pushPendingTransactions e post s))))
       \<and> transactions (fst (pushPendingTransactions e post s)) =
            map (\<lambda>t. t\<lparr>syncStatus := Synced\<rparr>) (transactions s)"
proof -
  have run: "pushPendingTransactions e post s =
      (markAsSynced (map localId (getPendingTransactions s)) s,
       \<lparr>synced = length (getPendingTransactions s), pending = 0\<rparr>)"
    using assms by (simp add: pushPendingTransactions_def Let_def)
  have rows: "transactions (fst (pushPendingTransactions e post s)) =
      map (\<lambda>t. t\<lparr>syncStatus := Synced\<rparr>) (transactions s)"
    by (simp add: run markAsSynced_pending)
  have none: "getPendingTransactions (fst (pushPendingTransactions e post s)) = []"
    unfolding getPendingTransactions_def rows by (simp add: filter_empty_conv)
  have batch: "\<forall>t\<in>set (getPendingTransactions s).
      t\<lparr>syncStatus := Synced\<rparr> \<in> set (transactions (fst (pushPendingTransactions e post s)))"
    unfolding rows by (auto simp add: getPendingTransactions_def)
  from run rows none batch show ?thesis by simp
qed

theorem push_success_marks_batch_witness:
  "onLine \<lparr>onLine = True, api_url = ''https://rancho.example''\<rparr>
   \<and> api_url \<lparr>onLine = True, api_url = ''https://rancho.example''\<rparr> \<noteq> []
   \<and> getPendingTransactions sample_store \<noteq> []
   \<and> (\<lambda>b. Response True ()) (push_body (getPendingTransactions sample_store)) = Response True ()
   \<and> synced (snd (pushPendingTransactions \<lparr>onLine = True, api_url = ''https://rancho.example''\<rparr>
        (\<lambda>b. Response True ()) sample_store)) = 2
   \<and> getPendingTransactions (fst (pushPendingTransactions
        \<lparr>onLine = True, api_url = ''https://rancho.example''\<rparr>
        (\<lambda>b. Response True ()) sample_store)) = []"
proof -
  have n: "length (getPendingTransactions sample_store) = 2"
    and ne: "getPendingTransactions sample_store \<noteq> []"
    by (simp_all add: getPendingTransactions_def sample_store_def sample_row_def)
  from push_success_marks_batch
    [of "\<lparr>onLine = True, api_url = ''https://rancho.example''\<rparr>" sample_store
        "\<lambda>b. Response True ()"] ne
  show ?thesis
    by (simp add: n)
qed

text \<open>
  C6, as stated, fails: a pending record without \<open>categoria\<close> is sent with the category
  \<open>'general'\<close>, which is not its projection.
\<close>

theorem push_body_not_plain_projection:
  "push_body [(sample_row 7 ''z'' ''gasto'' 40 ''2024-03-15'' Pending)\<lparr>categoria := JUndefined\<rparr>]
     \<noteq> map wire_projection
         [(sample_row 7 ''z'' ''gasto'' 40 ''2024-03-15'' Pending)\<lparr>categoria := JUndefined\<rparr>]"
  by (simp add: push_body_def push_fields_def wire_projection_def sample_row_def or_else_def)

text \<open>
  C6, amended. The request body is the projection of each pending record onto the nine wire
  fields, except that a missing or empty category is sent as \<open>'general'\<close>; for records
  that have a category it is exactly the projection. \<open>localId\<close>, \<open>syncStatus\<close> and
  \<open>comprobante\<close> have no influence on the body, and the push uses the endpoint on this
  body only.
\<close>

theorem push_body_wire_fields:
  "push_body pending_rows =
     map (\<lambda>t. (wire_projection t)\<lparr>categoria := or_else (categoria t) (JStr ''general'')\<rparr>)
       pending_rows
   \<and> ((\<forall>t\<in>set pending_rows. truthy (categoria t)) \<longrightarrow>
        push_body pending_rows = map wire_projection pending_rows)
   \<and> push_body (map (\<lambda>t. t\<lparr>localId := k t, syncStatus := st t, comprobante := c t\<rparr>) pending_rows)
        = push_body pending_rows
   \<and> (post' (push_body (getPendingTransactions s)) = post (push_body (getPendingTransactions s))
        \<longrightarrow> pushPendingTransactions e post' s = pushPendingTransactions e post s)"
proof (intro conjI impI)
  show "push_body pending_rows =
     map (\<lambda>t. (wire_projection t)\<lparr>categoria := or_else (categoria t) (JStr ''general'')\<rparr>)
       pending_rows"
    by (simp add: push_body_def push_fields_def wire_projection_def)
  show "push_body pending_rows = map wire_projection pending_rows"
    if "\<forall>t\<in>set pending_rows. truthy (categoria t)"
    using that by (simp add: push_body_def push_fields_def wire_projection_def or_else_def)
  show "push_body (map (\<lambda>t. t\<lparr>localId := k t, syncStatus := st t, comprobante := c t\<rparr>) pending_rows)
        = push_body pending_rows"
    by (simp add: push_body_def push_fields_def comp_def)
  show "pushPendingTransactions e post' s = pushPendingTransactions e post s"
    if "post' (push_body (getPendingTransactions s)) = post (push_body (getPendingTransactions s))"
    using that by (simp add: pushPendingTransactions_def Let_def)
qed

theorem push_body_wire_fields_witness:
  "list_all (\<lambda>t. truthy (categoria t)) (getPendingTransactions sample_store)
   \<and> push_body (getPendingTransactions sample_store) =
       map wire_projection (getPendingTransactions sample_store)
   \<and> (\<lambda>b. if length b = 2 then Response True () else Throws)
        (push_body (getPendingTransactions sample_store)) =
      (\<lambda>b. Response True ()) (push_body (getPendingTransactions sample_store))
   \<and> pushPendingTransactions \<lparr>onLine = True, api_url = ''https://rancho.example''\<rparr>
        (\<lambda>b. if length b = 2 then Response True () else Throws) sample_store =
      pushPendingTransactions \<lparr>onLine = True, api_url = ''https://rancho.example''\<rparr>
        (\<lambda>b. Response True ()) sample_store"
proof -
  have p: "getPendingTransactions sample_store =
      [sample_row 2 ''b'' ''gasto'' 120 ''2024-03-15'' Pending,
       sample_row 3 ''c'' ''ingreso'' 80 ''2024-03-16'' Pending]"
    by (simp add: getPendingTransactions_def sample_store_def sample_row_def)
  have h1: "\<forall>t\<in>set (getPendingTransactions sample_store). truthy (categoria t)"
    unfolding p by (simp add: sample_row_def)
  have h2: "(\<lambda>b. if length b = 2 then Response True () else Throws)
        (push_body (getPendingTransactions sample_store)) =
      (\<lambda>b. Response True ()) (push_body (getPendingTransactions sample_store))"
    unfolding p by (simp add: push_body_def)
  note inst = push_body_wire_fields
    [where pending_rows = "getPendingTransactions sample_store"
       and post' = "\<lambda>b. if length b = 2 then Response True () else Throws"
       and post = "\<lambda>b. Response True ()" and s = sample_store
       and e = "\<lparr>onLine = True, api_url = ''https://rancho.example''\<rparr>"]
  from inst h1 have c2: "push_body (getPendingTransactions sample_store) =
       map wire_projection (getPendingTransactions sample_store)"
    by blast
  from inst h2 have c4: "pushPendingTransactions
        \<lparr>onLine = True, api_url = ''https://rancho.example''\<rparr>
        (\<lambda>b. if length b = 2 then Response True () else Throws) sample_store =
      pushPendingTransactions \<lparr>onLine = True, api_url = ''https://rancho.example''\<rparr>
        (\<lambda>b. Response True ()) sample_store"
    by blast
  from h1 have h1': "list_all (\<lambda>t. truthy (categoria t)) (getPendingTransactions sample_store)"
    by (simp add: list_all_iff)
  from h1' c2 h2 c4 show ?thesis
    by (intro conjI)
qed

section \<open>Properties of the upsert and of the pull\<close>

lemma pull_loop_upsert_each:
  "pull_loop upsert strToNum now ts s n =
     upsert_each upsert (map (remote_fields strToNum now) (filter (\<lambda>t. truthy (t ''id'')) ts)) s n"
  by (induction ts arbitrary: s n) (simp_all split: prod.splits)

lemma id_overwrite_fields [simp]: "id' (overwrite_fields t r) = id' t"
  by (simp add: overwrite_fields_def)

lemma syncStatus_overwrite_fields [simp]: "syncStatus (overwrite_fields t r) = syncStatus r"
  by (simp add: overwrite_fields_def)

lemma id_insert_fields [simp]: "id' (insert_fields t k) = id' t"
  by (simp add: insert_fields_def)

lemma syncStatus_insert_fields [simp]: "syncStatus (insert_fields t k) = Synced"
  by (simp add: insert_fields_def)

lemma overwrite_fields_twice [simp]:
  "overwrite_fields t (overwrite_fields u r) = overwrite_fields t r"
  by (simp add: overwrite_fields_def)

lemma overwrite_insert_fields [simp]:
  "overwrite_fields t (insert_fields t k) = insert_fields t k"
  by (simp add: overwrite_fields_def insert_fields_def)

lemma upsert_rows_ids:
  "map id' (fst (upsert_rows t k rs)) =
     map id' rs @ (if id' t \<in> id' ` set rs then [] else [id' t])"
  by (induction rs) auto

lemma upsert_rows_new: "snd (upsert_rows t k rs) = (id' t \<notin> id' ` set rs)"
  by (induction rs) auto

lemma upsert_rows_pending:
  "filter (\<lambda>r. syncStatus r = Pending) (fst (upsert_rows t k rs)) =
     filter (\<lambda>r. syncStatus r = Pending) rs"
  by (induction rs) auto

text \<open>
  The upsert, read with \<open>find\<close>: no record with the identity, a synced one, a pending
  one.
\<close>

lemma upsert_rows_by_find:
  "upsert_rows t k rs =
     (case find (\<lambda>r. id' r = id' t) rs of
        None \<Rightarrow> (rs @ [insert_fields t k], True)
      | Some r \<Rightarrow>
          if syncStatus r = Synced then
            (takeWhile (\<lambda>r. id' r \<noteq> id' t) rs @ overwrite_fields t r
               # tl (dropWhile (\<lambda>r. id' r \<noteq> id' t) rs), False)
          else (rs, False))"
  by (induction rs) (simp_all split: option.splits)

lemma upsertRemoteTransaction_by_find:
  "upsertRemoteTransaction t s =
     (case find (\<lambda>r. id' r = id' t) (transactions s) of
        None \<Rightarrow>
          (s\<lparr>transactions := transactions s @ [insert_fields t (nextLocalId s)],
             nextLocalId := Suc (nextLocalId s)\<rparr>, True)
      | Some r \<Rightarrow>
          if syncStatus r = Synced then
            (s\<lparr>transactions :=
                 takeWhile (\<lambda>r. id' r \<noteq> id' t) (transactions s) @ overwrite_fields t r
                   # tl (dropWhile (\<lambda>r. id' r \<noteq> id' t) (transactions s))\<rparr>, False)
          else (s, False))"
  by (simp add: upsertRemoteTransaction_def upsert_rows_by_find split: option.splits)

lemma upsert_all_ids_distinct:
  "distinct (map id' rs) \<Longrightarrow> distinct (map id' (upsert_all ts k rs))"
proof (induction ts arbitrary: k rs)
  case Nil
  then show ?case by simp
next
  case (Cons t ts)
  have "distinct (map id' (fst (upsert_rows t k rs)))"
    unfolding upsert_rows_ids using Cons.prems by auto
  then show ?case
    by (simp add: Cons.IH)
qed

lemma upsert_all_pending:
  "filter (\<lambda>r. syncStatus r = Pending) (upsert_all ts k rs) =
     filter (\<lambda>r. syncStatus r = Pending) rs"
  by (induction ts arbitrary: k rs) (simp_all add: upsert_rows_pending)

lemma upsert_all_count_id:
  "x \<in> id' ` set rs \<Longrightarrow>
     length (filter (\<lambda>r. id' r = x) (upsert_all ts k rs)) = length (filter (\<lambda>r. id' r = x) rs)"
proof (induction ts arbitrary: k rs)
  case Nil
  then show ?case by simp
next
  case (Cons t ts)
  let ?rs = "fst (upsert_rows t k rs)"
  have ids: "map id' ?rs = map id' rs @ (if id' t \<in> id' ` set rs then [] else [id' t])"
    by (rule upsert_rows_ids)
  have count: "length (filter (\<lambda>r. id' r = x) ys) = length (filter (\<lambda>i. i = x) (map id' ys))"
    for ys :: "row list"
    by (simp add: filter_map comp_def)
  have "x \<in> set (map id' ?rs)"
    unfolding ids using Cons.prems by auto
  then have "x \<in> id' ` set ?rs" by simp
  from Cons.IH [OF this]
  have "length (filter (\<lambda>r. id' r = x) (upsert_all (t # ts) k rs)) =
        length (filter (\<lambda>r. id' r = x) ?rs)"
    by simp
  also have "\<dots> = length (filter (\<lambda>r. id' r = x) rs)"
    unfolding count ids using Cons.prems by auto
  finally show ?case .
qed

lemma upsert_each_rows:
  "transactions (fst (upsert_each upsertRemoteTransaction ts s n)) =
     upsert_all ts (nextLocalId s) (transactions s)"
  by (induction ts arbitrary: s n)
    (simp_all add: upsertRemoteTransaction_def split: prod.splits)

lemma id_settle_step [simp]: "id' (settle_step t r) = id' r"
  by (simp add: settle_step_def)

lemma syncStatus_settle_step [simp]: "syncStatus (settle_step t r) = syncStatus r"
  by (simp add: settle_step_def)

lemma settle_Nil [simp]: "settle [] r = r"
  by (simp add: settle_def)

lemma settle_Cons [simp]: "settle (t # ts) r = settle ts (settle_step t r)"
  by (simp add: settle_def)

lemma settle_snoc: "settle (ts @ [t]) r = settle_step t (settle ts r)"
  by (simp add: settle_def)

lemma id_settle [simp]: "id' (settle ts r) = id' r"
  by (induction ts arbitrary: r) simp_all

lemma syncStatus_settle [simp]: "syncStatus (settle ts r) = syncStatus r"
  by (induction ts arbitrary: r) simp_all

lemma settle_last:
  "settle ts r =
     (if syncStatus r = Synced then
        (case find (\<lambda>t. id' t = id' r) (rev ts) of
           None \<Rightarrow> r
         | Some t \<Rightarrow> overwrite_fields t r)
      else r)"
proof (induction ts rule: rev_induct)
  case Nil
  show ?case by simp
next
  case (snoc t ts)
  show ?case
  proof (cases "id' t = id' r \<and> syncStatus r = Synced")
    case True
    then have "settle (ts @ [t]) r = overwrite_fields t (settle ts r)"
      by (simp add: settle_snoc settle_step_def)
    also have "\<dots> = overwrite_fields t r"
      unfolding snoc.IH by (simp split: option.splits)
    finally show ?thesis
      using True by simp
  next
    case False
    then have "settle (ts @ [t]) r = settle ts r"
      by (auto simp add: settle_snoc settle_step_def)
    with False show ?thesis
      unfolding snoc.IH by auto
  qed
qed

lemma settle_twice: "settle ts (settle ts r) = settle ts r"
proof (cases "syncStatus r = Synced")
  case False
  then show ?thesis by (simp add: settle_last)
next
  case True
  show ?thesis
  proof (cases "find (\<lambda>t. id' t = id' r) (rev ts)")
    case None
    with True have "settle ts r = r" by (simp add: settle_last)
    then show ?thesis by simp
  next
    case (Some t)
    with True have 1: "settle ts r = overwrite_fields t r" by (simp add: settle_last)
    from Some have "id' t = id' r" by (auto simp add: find_Some_iff)
    with Some True have "settle ts (overwrite_fields t r) = overwrite_fields t (overwrite_fields t r)"
      by (simp add: settle_last [of ts "overwrite_fields t r"])
    with 1 show ?thesis by simp
  qed
qed

lemma settle_inserted:
  "settle ts (overwrite_fields t (settle ts (insert_fields t k))) = settle ts (insert_fields t k)"
proof (cases "find (\<lambda>u. id' u = id' t) (rev ts)")
  case None
  then have "settle ts (insert_fields t k) = insert_fields t k"
    by (simp add: settle_last)
  then show ?thesis by simp
next
  case (Some u)
  have "settle ts (insert_fields t k) =
      (case find (\<lambda>u. id' u = id' t) (rev ts) of
         None \<Rightarrow> insert_fields t k
       | Some u \<Rightarrow> overwrite_fields u (insert_fields t k))"
    unfolding settle_last [of ts "insert_fields t k"] by simp
  with Some have 1: "settle ts (insert_fields t k) = overwrite_fields u (insert_fields t k)"
    by simp
  let ?r = "overwrite_fields t (overwrite_fields u (insert_fields t k))"
  have "settle ts ?r =
      (case find (\<lambda>u. id' u = id' t) (rev ts) of
         None \<Rightarrow> ?r
       | Some u \<Rightarrow> overwrite_fields u ?r)"
    unfolding settle_last [of ts ?r] by simp
  with Some have "settle ts ?r = overwrite_fields u ?r"
    by simp
  with 1 show ?thesis by simp
qed

lemma upsert_all_Cons_row:
  "upsert_all ts k (r # rs) = settle ts r # upsert_all (filter (\<lambda>t. id' t \<noteq> id' r) ts) k rs"
proof (induction ts arbitrary: k r rs)
  case Nil
  show ?case by simp
next
  case (Cons t ts)
  show ?case
  proof (cases "id' r = id' t")
    case True
    then have "upsert_all (t # ts) k (r # rs) = upsert_all ts k (settle_step t r # rs)"
      by (simp add: settle_step_def)
    also have "\<dots> = settle ts (settle_step t r)
        # upsert_all (filter (\<lambda>u. id' u \<noteq> id' (settle_step t r)) ts) k rs"
      by (rule Cons.IH)
    finally show ?thesis
      using True by simp
  next
    case False
    then have "upsert_all (t # ts) k (r # rs) =
        upsert_all ts (if snd (upsert_rows t k rs) then Suc k else k)
          (r # fst (upsert_rows t k rs))"
      by simp
    also have "\<dots> = settle ts r # upsert_all (filter (\<lambda>u. id' u \<noteq> id' r) ts)
          (if snd (upsert_rows t k rs) then Suc k else k) (fst (upsert_rows t k rs))"
      by (rule Cons.IH)
    finally show ?thesis
      using False by (auto simp add: settle_step_def)
  qed
qed

lemma upsert_all_twice_Nil:
  "upsert_all ts k' (upsert_all ts k []) = upsert_all ts k []"
proof (induction "length ts" arbitrary: ts k k' rule: less_induct)
  case less
  show ?case
  proof (cases ts)
    case Nil
    then show ?thesis by simp
  next
    case (Cons t ts0)
    let ?h = "settle ts0 (insert_fields t k)"
    let ?ts1 = "filter (\<lambda>u. id' u \<noteq> id' t) ts0"
    let ?Y = "upsert_all ?ts1 (Suc k) []"
    have first: "upsert_all (t # ts0) k [] = ?h # ?Y"
      by (simp add: upsert_all_Cons_row)
    have "upsert_all (t # ts0) k' (?h # ?Y) =
        settle ts0 (settle_step t ?h) # upsert_all ?ts1 k' ?Y"
      by (simp add: upsert_all_Cons_row)
    also have "settle_step t ?h = overwrite_fields t ?h"
      by (simp add: settle_step_def)
    also have "settle ts0 (overwrite_fields t ?h) = ?h"
      by (rule settle_inserted)
    also have "upsert_all ?ts1 k' ?Y = ?Y"
    proof (rule less.hyps)
      have "length ?ts1 \<le> length ts0" by simp
      then have "length ?ts1 < Suc (length ts0)" by (rule le_imp_less_Suc)
      with Cons show "length ?ts1 < length ts" by simp
    qed
    finally show ?thesis
      unfolding Cons first .
  qed
qed

lemma upsert_all_twice:
  "upsert_all ts k' (upsert_all ts k rs) = upsert_all ts k rs"
proof (induction rs arbitrary: ts k k')
  case Nil
  show ?case by (rule upsert_all_twice_Nil)
next
  case (Cons r rs)
  show ?case
    by (simp add: upsert_all_Cons_row settle_twice Cons.IH)
qed

lemma upsert_all_has_ids: "id' ` set ts \<union> id' ` set rs \<subseteq> id' ` set (upsert_all ts k rs)"
proof (induction ts arbitrary: k rs)
  case Nil
  show ?case by simp
next
  case (Cons t ts)
  let ?rs = "fst (upsert_rows t k rs)"
  have "set (map id' ?rs) = insert (id' t) (id' ` set rs)"
    unfolding upsert_rows_ids by auto
  then have "id' ` set ?rs = insert (id' t) (id' ` set rs)" by simp
  with Cons.IH [of ?rs "if snd (upsert_rows t k rs) then Suc k else k"]
  show ?case by auto
qed

lemma upsertRemoteTransaction_eq:
  "upsertRemoteTransaction t s =
     (s\<lparr>transactions := fst (upsert_rows t (nextLocalId s) (transactions s)),
        nextLocalId := (if snd (upsert_rows t (nextLocalId s) (transactions s))
                        then Suc (nextLocalId s) else nextLocalId s)\<rparr>,
      snd (upsert_rows t (nextLocalId s) (transactions s)))"
  by (simp add: upsertRemoteTransaction_def split: prod.splits)

lemma transactions_upsert:
  "transactions (fst (upsertRemoteTransaction t s)) =
     fst (upsert_rows t (nextLocalId s) (transactions s))"
  by (simp add: upsertRemoteTransaction_eq)

lemma wasNew_upsert:
  "snd (upsertRemoteTransaction t s) = (id' t \<notin> id' ` set (transactions s))"
  by (simp add: upsertRemoteTransaction_eq upsert_rows_new)

lemma upsert_each_Cons:
  "upsert_each upsert (t # ts) s n =
     upsert_each upsert ts (fst (upsert t s)) (if snd (upsert t s) then n + 1 else n)"
  by (simp split: prod.splits)

lemma upsert_each_count:
  "id' ` set ts \<subseteq> id' ` set (transactions s) \<Longrightarrow>
     snd (upsert_each upsertRemoteTransaction ts s n) = n"
proof (induction ts arbitrary: s n)
  case Nil
  show ?case by simp
next
  case (Cons t ts)
  let ?s = "fst (upsertRemoteTransaction t s)"
  from Cons.prems have old: "\<not> snd (upsertRemoteTransaction t s)"
    by (simp add: wasNew_upsert)
  have "set (map id' (transactions ?s)) = set (map id' (transactions s))"
    unfolding transactions_upsert upsert_rows_ids using Cons.prems by auto
  then have "id' ` set (transactions ?s) = id' ` set (transactions s)" by simp
  with Cons.prems have "id' ` set ts \<subseteq> id' ` set (transactions ?s)" by simp
  from Cons.IH [OF this, of n] old show ?case
    unfolding upsert_each_Cons by simp
qed

lemma delivered_not_ok: "\<not> response_ok reply \<Longrightarrow> delivered reply = []"
proof (cases reply)
  case Throws
  then show ?thesis by (simp add: delivered_def)
next
  case (Response ok data)
  assume "\<not> response_ok reply"
  with Response show ?thesis by (simp add: delivered_def)
qed

lemma upserted_inactive:
  assumes "\<not> sync_enabled e reply"
  shows "upserted strToNum now e reply = []"
proof (cases "onLine e \<and> api_url e \<noteq> []")
  case False
  show ?thesis
    unfolding upserted_def by (rule if_not_P [OF False])
next
  case True
  with assms have "\<not> response_ok reply" by (simp add: sync_enabled_def)
  then have "delivered reply = []" by (rule delivered_not_ok)
  then show ?thesis by (simp add: upserted_def)
qed

lemma pull_eq:
  "pullRemoteTransactions upsert strToNum e reply now s =
     (if sync_enabled e reply then
        (setLastSyncTimestamp now
           (fst (upsert_each upsert (upserted strToNum now e reply) s 0)),
         snd (upsert_each upsert (upserted strToNum now e reply) s 0))
      else (s, 0))"
proof (cases reply)
  case Throws
  then show ?thesis
    by (simp add: pullRemoteTransactions_def sync_enabled_def)
next
  case (Response ok data)
  show ?thesis
  proof (cases data)
    case None
    with Response show ?thesis
      by (simp add: pullRemoteTransactions_def upserted_def delivered_def Let_def
          sync_enabled_def pull_loop_upsert_each split: prod.splits)
  next
    case (Some ts)
    with Response show ?thesis
      by (simp add: pullRemoteTransactions_def upserted_def delivered_def Let_def
          sync_enabled_def pull_loop_upsert_each split: prod.splits)
  qed
qed

lemma pull_rows:
  "transactions (fst (pullRemoteTransactions upsertRemoteTransaction strToNum e reply now s)) =
     upsert_all (upserted strToNum now e reply) (nextLocalId s) (transactions s)"
proof (cases "sync_enabled e reply")
  case True
  then show ?thesis
    unfolding pull_eq by (simp add: setLastSyncTimestamp_def upsert_each_rows)
next
  case False
  from upserted_inactive [OF this, of strToNum now] False show ?thesis
    unfolding pull_eq by simp
qed

lemma pull_count:
  "snd (pullRemoteTransactions upsert strToNum e reply now s) =
     snd (upsert_each upsert (upserted strToNum now e reply) s 0)"
proof (cases "sync_enabled e reply")
  case True
  then show ?thesis
    unfolding pull_eq by simp
next
  case False
  from upserted_inactive [OF this, of strToNum now] False show ?thesis
    unfolding pull_eq by simp
qed

lemma pull_pending:
  "getPendingTransactions
     (fst (pullRemoteTransactions upsertRemoteTransaction strToNum e reply now s)) =
   getPendingTransactions s"
  by (simp add: getPendingTransactions_def pull_rows upsert_all_pending)

lemma pull_ids_distinct:
  "distinct (map id' (transactions s)) \<Longrightarrow>
   distinct (map id' (transactions
     (fst (pullRemoteTransactions upsertRemoteTransaction strToNum e reply now s))))"
  by (simp add: pull_rows upsert_all_ids_distinct)

lemma sync_eq:
  "syncPendingTransactions upsert strToNum e post reply now s =
     (fst (pullRemoteTransactions upsert strToNum e reply now
             (fst (pushPendingTransactions e post s))),
      \<lparr>synced = synced (snd (pushPendingTransactions e post s)),
       pending = pending (snd (pushPendingTransactions e post s)),
       pulled = snd (pullRemoteTransactions upsert strToNum e reply now
                  (fst (pushPendingTransactions e post s)))\<rparr>)"
  by (simp add: syncPendingTransactions_def split: prod.splits)

lemma push_again:
  assumes "getPendingTransactions s' = getPendingTransactions (fst (pushPendingTransactions e post s))"
  shows "synced (snd (pushPendingTransactions e post s')) = 0
       \<and> fst (pushPendingTransactions e post s') = s'"
proof (cases "\<not> onLine e \<or> api_url e = [] \<or> getPendingTransactions s = []")
  case True
  with assms show ?thesis
    by (auto simp add: pushPendingTransactions_def Let_def)
next
  case False
  show ?thesis
  proof (cases "post (push_body (getPendingTransactions s)) = Response True ()")
    case True
    with False have "fst (pushPendingTransactions e post s) =
        markAsSynced (map localId (getPendingTransactions s)) s"
      by (simp add: pushPendingTransactions_def Let_def)
    then have "getPendingTransactions (fst (pushPendingTransactions e post s)) = []"
      by (simp add: getPendingTransactions_def [of "markAsSynced _ _"] markAsSynced_pending
          filter_empty_conv)
    with assms show ?thesis
      by (simp add: pushPendingTransactions_def Let_def)
  next
    case failed: False
    with False have "fst (pushPendingTransactions e post s) = s"
      by (auto simp add: pushPendingTransactions_def Let_def split: response.splits)
    with assms have "getPendingTransactions s' = getPendingTransactions s" by simp
    with False failed show ?thesis
      by (auto simp add: pushPendingTransactions_def Let_def split: response.splits)
  qed
qed

lemma upserted_ids:
  "map id' (upserted strToNum now2 e reply) = map id' (upserted strToNum now1 e reply)"
  by (simp add: upserted_def remote_fields_def comp_def)

lemma upserted_same:
  assumes "now2 = now1 \<or> (\<forall>t\<in>set (delivered reply). truthy (t ''id'') \<longrightarrow> truthy (t ''createdAt''))"
  shows "upserted strToNum now2 e reply = upserted strToNum now1 e reply"
proof -
  have "remote_fields strToNum now2 t = remote_fields strToNum now1 t"
    if "t \<in> set (filter (\<lambda>t. truthy (t ''id'')) (delivered reply))" for t
    using that assms by (auto simp add: remote_fields_def or_else_def)
  then show ?thesis
    by (simp add: upserted_def cong: map_cong)
qed

lemma id_remote_fields [simp]: "id' (remote_fields strToNum now t) = t ''id''"
  by (simp add: remote_fields_def)

lemma upsert_each_nextLocalId:
  "id' ` set ts \<subseteq> id' ` set (transactions s) \<Longrightarrow>
     nextLocalId (fst (upsert_each upsertRemoteTransaction ts s n)) = nextLocalId s"
proof (induction ts arbitrary: s n)
  case Nil
  show ?case by simp
next
  case (Cons t ts)
  let ?s = "fst (upsertRemoteTransaction t s)"
  from Cons.prems have old: "\<not> snd (upsert_rows t (nextLocalId s) (transactions s))"
    by (simp add: upsert_rows_new)
  then have key: "nextLocalId ?s = nextLocalId s"
    by (simp add: upsertRemoteTransaction_eq)
  have "set (map id' (transactions ?s)) = set (map id' (transactions s))"
    unfolding transactions_upsert upsert_rows_ids using Cons.prems by auto
  then have "id' ` set (transactions ?s) = id' ` set (transactions s)" by simp
  with Cons.prems have "id' ` set ts \<subseteq> id' ` set (transactions ?s)" by simp
  from Cons.IH [OF this] key show ?case
    unfolding upsert_each_Cons by simp
qed

lemma pull_nextLocalId:
  "id' ` set (upserted strToNum now e reply) \<subseteq> id' ` set (transactions s) \<Longrightarrow>
     nextLocalId (fst (pullRemoteTransactions upsertRemoteTransaction strToNum e reply now s)) =
       nextLocalId s"
  by (simp add: pull_eq setLastSyncTimestamp_def upsert_each_nextLocalId)

section \<open>Running the sync twice\<close>

text \<open>
  C1, as stated, fails in its last part: when a remote record has no \<open>createdAt\<close>, each
  pull gives it the time of that pull, and the second sync overwrites the \<open>createdAt\<close> of
  the synced local copy.
\<close>

theorem second_sync_restamps_createdAt:
  "transactions
     (fst (syncPendingTransactions upsertRemoteTransaction sample_strToNum sample_env
             sample_post sample_reply ''2024-03-15T11:00:00.000Z''
             (fst (syncPendingTransactions upsertRemoteTransaction sample_strToNum sample_env
                     sample_post sample_reply ''2024-03-15T10:00:00.000Z'' emptyStore))))
   \<noteq> transactions
       (fst (syncPendingTransactions upsertRemoteTransaction sample_strToNum sample_env
               sample_post sample_reply ''2024-03-15T10:00:00.000Z'' emptyStore))"
proof -
  let ?t1 = "remote_fields sample_strToNum ''2024-03-15T10:00:00.000Z'' (sample_remote ''a'' 200)"
  let ?t2 = "remote_fields sample_strToNum ''2024-03-15T11:00:00.000Z'' (sample_remote ''a'' 200)"
  have id: "truthy (sample_remote ''a'' 200 ''id'')"
    by (simp add: sample_remote_def)
  have first: "fst (syncPendingTransactions upsertRemoteTransaction sample_strToNum sample_env
                     sample_post sample_reply ''2024-03-15T10:00:00.000Z'' emptyStore) =
      \<lparr>transactions = [insert_fields ?t1 1], nextLocalId = 2,
       lastSync = Some ''2024-03-15T10:00:00.000Z''\<rparr>"
    by (simp add: syncPendingTransactions_def pushPendingTransactions_def
        getPendingTransactions_def emptyStore_def sample_env_def sample_reply_def
        pullRemoteTransactions_def id upsertRemoteTransaction_def setLastSyncTimestamp_def)
  have second: "transactions
     (fst (syncPendingTransactions upsertRemoteTransaction sample_strToNum sample_env
             sample_post sample_reply ''2024-03-15T11:00:00.000Z''
             \<lparr>transactions = [insert_fields ?t1 1], nextLocalId = 2,
              lastSync = Some ''2024-03-15T10:00:00.000Z''\<rparr>)) =
      [overwrite_fields ?t2 (insert_fields ?t1 1)]"
    by (simp add: syncPendingTransactions_def pushPendingTransactions_def
        getPendingTransactions_def sample_env_def sample_reply_def
        pullRemoteTransactions_def id upsertRemoteTransaction_def setLastSyncTimestamp_def)
  have "createdAt (overwrite_fields ?t2 (insert_fields ?t1 1)) =
      JStr ''2024-03-15T11:00:00.000Z''"
    and "createdAt (insert_fields ?t1 1) = JStr ''2024-03-15T10:00:00.000Z''"
    by (simp_all add: overwrite_fields_def insert_fields_def remote_fields_def
        sample_remote_def or_else_def)
  then have "overwrite_fields ?t2 (insert_fields ?t1 1) \<noteq> insert_fields ?t1 1"
    by auto
  then show ?thesis
    unfolding first second by simp
qed

text \<open>
  C1, amended. A combined sync run a second time, against the same endpoint and the same
  remote records, returns \<open>synced = 0\<close> and \<open>pulled = 0\<close>; and it leaves the records of the
  table as they were when every remote record that has an \<open>id\<close> also has a \<open>createdAt\<close>
  (or the clock reads the same in both runs). No key is handed out; only the last-sync
  watermark is rewritten.
\<close>

theorem second_sync_is_noop:
  "(let first = syncPendingTransactions upsertRemoteTransaction strToNum e post reply now1 s;
        second = syncPendingTransactions upsertRemoteTransaction strToNum e post reply now2
                   (fst first)
    in synced (snd second) = 0 \<and> pulled (snd second) = 0
       \<and> nextLocalId (fst second) = nextLocalId (fst first)
       \<and> (now2 = now1
            \<or> (\<forall>t\<in>set (delivered reply). truthy (t ''id'') \<longrightarrow> truthy (t ''createdAt''))
          \<longrightarrow> transactions (fst second) = transactions (fst first)))"
proof -
  let ?U = upsertRemoteTransaction
  let ?s1 = "fst (pushPendingTransactions e post s)"
  let ?sA = "fst (pullRemoteTransactions ?U strToNum e reply now1 ?s1)"
  let ?N1 = "upserted strToNum now1 e reply"
  let ?N2 = "upserted strToNum now2 e reply"
  have rowsA: "transactions ?sA = upsert_all ?N1 (nextLocalId ?s1) (transactions ?s1)"
    by (rule pull_rows)
  have "getPendingTransactions ?sA = getPendingTransactions ?s1"
    by (rule pull_pending)
  from push_again [OF this]
  have push2: "synced (snd (pushPendingTransactions e post ?sA)) = 0"
    and same: "fst (pushPendingTransactions e post ?sA) = ?sA"
    by simp_all
  have "set (map id' ?N2) \<subseteq> id' ` set (transactions ?sA)"
    unfolding upserted_ids [of strToNum now2 e reply now1] rowsA
    using upsert_all_has_ids [of ?N1 "transactions ?s1" "nextLocalId ?s1"] by simp
  then have present: "id' ` set ?N2 \<subseteq> id' ` set (transactions ?sA)" by simp
  then have pull2: "snd (pullRemoteTransactions ?U strToNum e reply now2 ?sA) = 0"
    unfolding pull_count by (rule upsert_each_count)
  from present have key2:
    "nextLocalId (fst (pullRemoteTransactions ?U strToNum e reply now2 ?sA)) = nextLocalId ?sA"
    by (rule pull_nextLocalId)
  have rows2: "transactions (fst (pullRemoteTransactions ?U strToNum e reply now2 ?sA)) =
      transactions ?sA"
    if "now2 = now1
        \<or> (\<forall>t\<in>set (delivered reply). truthy (t ''id'') \<longrightarrow> truthy (t ''createdAt''))"
  proof -
    from that have "?N2 = ?N1" by (rule upserted_same)
    then show ?thesis
      unfolding pull_rows [of strToNum e reply now2 ?sA] rowsA
      by (simp add: upsert_all_twice)
  qed
  show ?thesis
    unfolding Let_def sync_eq using push2 same pull2 key2 rows2 by simp
qed

theorem second_sync_is_noop_witness:
  "(let reply = Response True
        (Some [(sample_remote ''a'' 200)(''createdAt'' := JStr ''2024-03-01T08:00:00.000Z'')]);
        first = syncPendingTransactions upsertRemoteTransaction (\<lambda>x. NaN) sample_env
                  (\<lambda>b. Response True ()) reply ''2024-03-15T10:00:00.000Z'' sample_store;
        second = syncPendingTransactions upsertRemoteTransaction (\<lambda>x. NaN) sample_env
                  (\<lambda>b. Response True ()) reply ''2024-03-15T11:00:00.000Z'' (fst first)
    in list_all (\<lambda>t. truthy (t ''createdAt'')) (delivered reply)
       \<and> synced (snd second) = 0 \<and> pulled (snd second) = 0
       \<and> nextLocalId (fst second) = nextLocalId (fst first)
       \<and> transactions (fst second) = transactions (fst first))"
proof -
  let ?reply = "Response True
        (Some [(sample_remote ''a'' 200)(''createdAt'' := JStr ''2024-03-01T08:00:00.000Z'')])"
  have h: "list_all (\<lambda>t. truthy (t ''createdAt'')) (delivered ?reply)"
    by (simp add: delivered_def)
  then have "\<forall>t\<in>set (delivered ?reply). truthy (t ''id'') \<longrightarrow> truthy (t ''createdAt'')"
    by (simp add: list_all_iff)
  with second_sync_is_noop [of "\<lambda>x. NaN" sample_env "\<lambda>b. Response True ()" ?reply
      "''2024-03-15T10:00:00.000Z''" sample_store "''2024-03-15T11:00:00.000Z''"] h
  show ?thesis
    unfolding Let_def by blast
qed

section \<open>Pending records and the pull\<close>

lemma upsert_rows_discard:
  "find (\<lambda>x. id' x = id' t) rs = Some r \<Longrightarrow> syncStatus r = Pending \<Longrightarrow>
     upsert_rows t k rs = (rs, False)"
  by (induction rs) (auto split: if_splits)

text \<open>
  C2. A pending local record is never touched by a pull: it is still in the table, with all
  its fields and \<open>syncStatus = Pending\<close>; the pending records are the same before and
  after; no second record with its identity appears; and the upsert of a remote record
  whose identity is that of the pending record returns the store as it was, with
  \<open>wasNew = False\<close>.
\<close>

theorem pending_record_survives_pull:
  assumes "r \<in> set (transactions s)" and "syncStatus r = Pending"
  shows "r \<in> set (transactions
            (fst (pullRemoteTransactions upsertRemoteTransaction strToNum e reply now s)))
       \<and> getPendingTransactions
            (fst (pullRemoteTransactions upsertRemoteTransaction strToNum e reply now s)) =
           getPendingTransactions s
       \<and> length (filter (\<lambda>x. id' x = id' r) (transactions
            (fst (pullRemoteTransactions upsertRemoteTransaction strToNum e reply now s)))) =
           length (filter (\<lambda>x. id' x = id' r) (transactions s))
       \<and> (find (\<lambda>x. id' x = id' t) (transactions s) = Some r \<longrightarrow>
            upsertRemoteTransaction t s = (s, False))"
proof (intro conjI impI)
  let ?s' = "fst (pullRemoteTransactions upsertRemoteTransaction strToNum e reply now s)"
  show same: "getPendingTransactions ?s' = getPendingTransactions s"
    by (rule pull_pending)
  from assms have "r \<in> set (getPendingTransactions s)"
    by (simp add: getPendingTransactions_def)
  then have "r \<in> set (getPendingTransactions ?s')"
    by (simp only: same)
  then show "r \<in> set (transactions ?s')"
    by (simp add: getPendingTransactions_def)
  from assms(1) have "id' r \<in> id' ` set (transactions s)" by simp
  then show "length (filter (\<lambda>x. id' x = id' r) (transactions ?s')) =
      length (filter (\<lambda>x. id' x = id' r) (transactions s))"
    unfolding pull_rows by (rule upsert_all_count_id)
  show "upsertRemoteTransaction t s = (s, False)"
    if "find (\<lambda>x. id' x = id' t) (transactions s) = Some r"
    using upsert_rows_discard [OF that assms(2), of "nextLocalId s"]
    by (simp add: upsertRemoteTransaction_def)
qed

theorem pending_record_survives_pull_witness:
  "(let local = sample_row 7 ''a'' ''ingreso'' 100 ''2024-03-15'' Pending;
        s = \<lparr>transactions = [local], nextLocalId = 8, lastSync = None\<rparr>;
        s' = fst (pullRemoteTransactions upsertRemoteTransaction (\<lambda>x. NaN) sample_env
                    (Response True (Some [sample_remote ''a'' 200]))
                    ''2024-03-15T10:00:00.000Z'' s)
    in local \<in> set (transactions s) \<and> syncStatus local = Pending
       \<and> monto local = Fin 100
       \<and> getPendingTransactions s' = [local]
       \<and> length (filter (\<lambda>x. id' x = JStr ''a'') (transactions s')) = 1)"
proof -
  let ?local = "sample_row 7 ''a'' ''ingreso'' 100 ''2024-03-15'' Pending"
  let ?s = "\<lparr>transactions = [?local], nextLocalId = 8, lastSync = None\<rparr>"
  have h1: "?local \<in> set (transactions ?s)" and h2: "syncStatus ?local = Pending"
    and m: "monto ?local = Fin 100" and i: "id' ?local = JStr ''a''"
    by (simp_all add: sample_row_def)
  have p: "getPendingTransactions ?s = [?local]"
    by (simp add: getPendingTransactions_def h2)
  have c: "length (filter (\<lambda>x. id' x = JStr ''a'') (transactions ?s)) = 1"
    by (simp add: i)
  from pending_record_survives_pull [OF h1 h2, of "\<lambda>x. NaN" sample_env
      "Response True (Some [sample_remote ''a'' 200])" "''2024-03-15T10:00:00.000Z''"]
    h1 h2 m
  show ?thesis
    unfolding Let_def p c i by blast
qed

section \<open>One record for each identity\<close>

lemma add_ids:
  "map id' (transactions (fst (addTransaction now transaction s))) =
     map id' (transactions s) @ [id' transaction]"
  by (simp add: addTransaction_def)

lemma apply_op_distinct:
  assumes "distinct (map id' (transactions s))" and "fresh_ids strToNum (x # xs) s"
  shows "distinct (map id' (transactions (apply_op strToNum x s)))"
proof (cases x)
  case (Add now transaction)
  with assms show ?thesis
    by (simp add: add_ids)
next
  case (Pull e reply now)
  with assms(1) show ?thesis
    by (simp add: pull_ids_distinct)
qed

lemma fresh_ids_tail:
  "fresh_ids strToNum (x # xs) s \<Longrightarrow> fresh_ids strToNum xs (apply_op strToNum x s)"
  by (cases x) simp_all

lemma run_ops_distinct:
  "distinct (map id' (transactions s)) \<Longrightarrow> fresh_ids strToNum ops s \<Longrightarrow>
     distinct (map id' (transactions (run_ops strToNum ops s)))"
proof (induction ops arbitrary: s)
  case Nil
  then show ?case by simp
next
  case (Cons x xs)
  from Cons.prems have "distinct (map id' (transactions (apply_op strToNum x s)))"
    by (rule apply_op_distinct)
  moreover from Cons.prems(2) have "fresh_ids strToNum xs (apply_op strToNum x s)"
    by (rule fresh_ids_tail)
  ultimately show ?case
    by (simp add: Cons.IH)
qed

lemma fresh_ids_pulls: "fresh_ids strToNum (map (\<lambda>now. Pull e reply now) nows) s"
  by (induction nows arbitrary: s) simp_all

lemma distinct_count_le_1:
  "distinct (map f xs) \<Longrightarrow> length (filter (\<lambda>r. f r = x) xs) \<le> 1"
proof (induction xs)
  case Nil
  show ?case by simp
next
  case (Cons a xs)
  show ?case
  proof (cases "f a = x")
    case True
    with Cons.prems have "x \<notin> f ` set xs" by simp
    then have "filter (\<lambda>r. f r = x) xs = []"
      by (auto simp add: filter_empty_conv)
    with True show ?thesis by simp
  next
    case False
    with Cons show ?thesis by simp
  qed
qed

text \<open>
  C5, as stated, fails: \<open>addTransaction\<close> stores whatever identity it is given, so two
  additions with the same identity leave two records with it.
\<close>

theorem two_additions_share_an_id:
  "count_id (JStr ''a'')
     (run_ops sample_strToNum
        [Add ''2024-03-15T09:00:00.000Z'' (sample_row 0 ''a'' ''ingreso'' 100 ''2024-03-15'' Synced),
         Add ''2024-03-15T09:05:00.000Z'' (sample_row 0 ''a'' ''ingreso'' 100 ''2024-03-15'' Synced)]
        emptyStore) = 2"
  by (simp add: count_id_def addTransaction_def emptyStore_def sample_row_def)

text \<open>
  C5, amended. Starting from a table in which no two records share an identity, after
  every sequence of additions and pulls in which each added record brings an identity that
  no record of the table has at that moment (as \<open>generateId\<close> provides; the addition
  itself does not check), each identity is that of at most one record. In particular, from
  the empty store, pulls of the same remote records, however often repeated, never give
  two records with the same identity.
\<close>

theorem globalId_identifies_one_record:
  assumes "distinct (map id' (transactions s))" and "fresh_ids strToNum ops s"
  shows "count_id x (run_ops strToNum ops s) \<le> 1
       \<and> count_id x (run_ops strToNum (map (\<lambda>now. Pull e reply now) nows) emptyStore) \<le> 1"
proof
  from assms have "distinct (map id' (transactions (run_ops strToNum ops s)))"
    by (rule run_ops_distinct)
  then show "count_id x (run_ops strToNum ops s) \<le> 1"
    unfolding count_id_def by (rule distinct_count_le_1)
  have "distinct (map id' (transactions emptyStore))"
    by (simp add: emptyStore_def)
  then have "distinct (map id' (transactions
      (run_ops strToNum (map (\<lambda>now. Pull e reply now) nows) emptyStore)))"
    using fresh_ids_pulls by (rule run_ops_distinct)
  then show "count_id x (run_ops strToNum (map (\<lambda>now. Pull e reply now) nows) emptyStore) \<le> 1"
    unfolding count_id_def by (rule distinct_count_le_1)
qed

theorem globalId_identifies_one_record_witness:
  "(let ops = [Add ''2024-03-15T09:00:00.000Z''
                 (sample_row 0 ''a'' ''ingreso'' 100 ''2024-03-15'' Synced),
               Pull sample_env (Response True (Some [sample_remote ''a'' 200,
                 sample_remote ''b'' 50])) ''2024-03-15T10:00:00.000Z'',
               Pull sample_env (Response True (Some [sample_remote ''a'' 200,
                 sample_remote ''b'' 50])) ''2024-03-15T11:00:00.000Z'']
    in distinct (map id' (transactions emptyStore))
       \<and> fresh_ids sample_strToNum ops emptyStore
       \<and> count_id (JStr ''a'') (run_ops sample_strToNum ops emptyStore) \<le> 1)"
proof -
  let ?ops = "[Add ''2024-03-15T09:00:00.000Z''
                 (sample_row 0 ''a'' ''ingreso'' 100 ''2024-03-15'' Synced),
               Pull sample_env (Response True (Some [sample_remote ''a'' 200,
                 sample_remote ''b'' 50])) ''2024-03-15T10:00:00.000Z'',
               Pull sample_env (Response True (Some [sample_remote ''a'' 200,
                 sample_remote ''b'' 50])) ''2024-03-15T11:00:00.000Z'']"
  have h1: "distinct (map id' (transactions emptyStore))"
    by (simp add: emptyStore_def)
  have h2: "fresh_ids sample_strToNum ?ops emptyStore"
    by (simp add: emptyStore_def)
  from globalId_identifies_one_record [OF h1 h2, where x = "JStr ''a''" and e = sample_env
      and reply = Throws and nows = "[]"] h1 h2
  show ?thesis
    unfolding Let_def by blast
qed

section \<open>Normalization of the remote records\<close>

lemma upsert_rows_invariant:
  assumes "list_all Q rs" and "Q (insert_fields t k)" and "\<And>r. Q (overwrite_fields t r)"
  shows "list_all Q (fst (upsert_rows t k rs))"
  using assms(1) by (induction rs) (simp_all add: assms(2,3))

lemma upsert_all_invariant:
  assumes "list_all Q rs"
    and "\<And>t k. t \<in> set ts \<Longrightarrow> Q (insert_fields t k)"
    and "\<And>t r. t \<in> set ts \<Longrightarrow> Q (overwrite_fields t r)"
  shows "list_all Q (upsert_all ts k rs)"
  using assms
proof (induction ts arbitrary: k rs)
  case Nil
  then show ?case by simp
next
  case (Cons t ts)
  have "list_all Q (fst (upsert_rows t k rs))"
    by (rule upsert_rows_invariant) (simp_all add: Cons.prems)
  then show ?case
    by (simp add: Cons.IH Cons.prems)
qed

lemma or_else_defined: "or_else x (JStr d) \<noteq> JUndefined"
  by (cases x) (simp_all add: or_else_def)

lemma has_remote_fields_insert:
  "has_remote_fields (insert_fields (remote_fields strToNum now t) k)"
  by (simp add: has_remote_fields_def insert_fields_def remote_fields_def or_else_defined)

lemma has_remote_fields_overwrite:
  "has_remote_fields (overwrite_fields (remote_fields strToNum now t) r)"
  by (simp add: has_remote_fields_def overwrite_fields_def remote_fields_def or_else_defined)

text \<open>
  C10. A pull hands to the upsert, in order, exactly the records of the remote that have a
  truthy \<open>id\<close>, each one normalized; a record with a missing or empty \<open>id\<close> is skipped.
  In the normalized record \<open>id\<close>, \<open>tipo\<close> and \<open>fecha\<close> are those of the remote record.
  The amount is coerced to a number: a number stays, a string is converted, a missing
  amount is \<open>NaN\<close>, \<open>null\<close> is \<open>0\<close>, a boolean \<open>0\<close> or \<open>1\<close>. Each of description,
  category, payment method, author and \<open>createdAt\<close> keeps the value of the remote record
  when that value is truthy (a non-empty string is kept), and otherwise becomes its
  default: the empty string, \<open>'general'\<close>, \<open>'efectivo'\<close>, the empty string, the current
  timestamp. Hence none of these fields is missing in a normalized record, and, with the
  upsert of the specification, every row of the table after a pull is a row it had before
  or has all of them.
\<close>

theorem pull_normalizes_remote_records:
  "pull_loop upsert strToNum now ts s n =
     upsert_each upsert
       (map (remote_fields strToNum now) (filter (\<lambda>t. truthy (t ''id'')) ts)) s n
   \<and> pull_loop upsert strToNum now (t(''id'' := JUndefined) # ts) s n =
       pull_loop upsert strToNum now ts s n
   \<and> pull_loop upsert strToNum now (t(''id'' := JStr '''') # ts) s n =
       pull_loop upsert strToNum now ts s n
   \<and> id' (remote_fields strToNum now t) = t ''id''
   \<and> tipo (remote_fields strToNum now t) = t ''tipo''
   \<and> fecha (remote_fields strToNum now t) = t ''fecha''
   \<and> monto (remote_fields strToNum now (t(''monto'' := JNum x))) = x
   \<and> monto (remote_fields strToNum now (t(''monto'' := JStr str))) = strToNum str
   \<and> monto (remote_fields strToNum now (t(''monto'' := JObj str))) = strToNum str
   \<and> monto (remote_fields strToNum now (t(''monto'' := JUndefined))) = NaN
   \<and> monto (remote_fields strToNum now (t(''monto'' := JNull))) = Fin 0
   \<and> monto (remote_fields strToNum now (t(''monto'' := JBool False))) = Fin 0
   \<and> monto (remote_fields strToNum now (t(''monto'' := JBool True))) = Fin 1
   \<and> descripcion (remote_fields strToNum now t) =
       (if truthy (t ''descripcion'') then t ''descripcion'' else JStr '''')
   \<and> categoria (remote_fields strToNum now t) =
       (if truthy (t ''categoria'') then t ''categoria'' else JStr ''general'')
   \<and> metodoPago (remote_fields strToNum now t) =
       (if truthy (t ''metodoPago'') then t ''metodoPago'' else JStr ''efectivo'')
   \<and> usuario (remote_fields strToNum now t) =
       (if truthy (t ''usuario'') then t ''usuario'' else JStr '''')
   \<and> createdAt (remote_fields strToNum now t) =
       (if truthy (t ''createdAt'') then t ''createdAt'' else JStr now)
   \<and> descripcion (remote_fields strToNum now (t(''descripcion'' := JStr (c # cs)))) = JStr (c # cs)
   \<and> categoria (remote_fields strToNum now (t(''categoria'' := JStr (c # cs)))) = JStr (c # cs)
   \<and> metodoPago (remote_fields strToNum now (t(''metodoPago'' := JStr (c # cs)))) = JStr (c # cs)
   \<and> usuario (remote_fields strToNum now (t(''usuario'' := JStr (c # cs)))) = JStr (c # cs)
   \<and> createdAt (remote_fields strToNum now (t(''createdAt'' := JStr (c # cs)))) = JStr (c # cs)
   \<and> descripcion (remote_fields strToNum now (t(''descripcion'' := JUndefined))) = JStr ''''
   \<and> categoria (remote_fields strToNum now (t(''categoria'' := JUndefined))) = JStr ''general''
   \<and> metodoPago (remote_fields strToNum now (t(''metodoPago'' := JUndefined))) = JStr ''efectivo''
   \<and> usuario (remote_fields strToNum now (t(''usuario'' := JUndefined))) = JStr ''''
   \<and> createdAt (remote_fields strToNum now (t(''createdAt'' := JUndefined))) = JStr now
   \<and> descripcion (remote_fields strToNum now t) \<noteq> JUndefined
   \<and> categoria (remote_fields strToNum now t) \<noteq> JUndefined
   \<and> metodoPago (remote_fields strToNum now t) \<noteq> JUndefined
   \<and> usuario (remote_fields strToNum now t) \<noteq> JUndefined
   \<and> createdAt (remote_fields strToNum now t) \<noteq> JUndefined
   \<and> list_all (\<lambda>r. r \<in> set (transactions s) \<or> has_remote_fields r)
       (transactions
          (fst (pullRemoteTransactions upsertRemoteTransaction strToNum e reply now s)))"
proof (intro conjI)
  show "pull_loop upsert strToNum now ts s n =
     upsert_each upsert
       (map (remote_fields strToNum now) (filter (\<lambda>t. truthy (t ''id'')) ts)) s n"
    by (rule pull_loop_upsert_each)
  show "list_all (\<lambda>r. r \<in> set (transactions s) \<or> has_remote_fields r)
       (transactions
          (fst (pullRemoteTransactions upsertRemoteTransaction strToNum e reply now s)))"
    unfolding pull_rows
  proof (rule upsert_all_invariant)
    show "list_all (\<lambda>r. r \<in> set (transactions s) \<or> has_remote_fields r) (transactions s)"
      by (simp add: list_all_iff)
  next
    fix u k assume "u \<in> set (upserted strToNum now e reply)"
    then obtain j where "u = remote_fields strToNum now j"
      by (auto simp add: upserted_def split: if_splits)
    then show "insert_fields u k \<in> set (transactions s) \<or> has_remote_fields (insert_fields u k)"
      by (simp add: has_remote_fields_insert)
  next
    fix u r assume "u \<in> set (upserted strToNum now e reply)"
    then obtain j where "u = remote_fields strToNum now j"
      by (auto simp add: upserted_def split: if_splits)
    then show "overwrite_fields u r \<in> set (transactions s)
        \<or> has_remote_fields (overwrite_fields u r)"
      by (simp add: has_remote_fields_overwrite)
  qed
qed (simp_all add: remote_fields_def or_else_def or_else_defined [unfolded or_else_def])

theorem pull_normalizes_remote_records_witness:
  "pull_loop upsertRemoteTransaction sample_strToNum ''2024-03-15T10:00:00.000Z''
     [(sample_remote ''a'' 200)(''id'' := JStr ''''), sample_remote ''b'' 50] emptyStore 0 =
   (\<lparr>transactions =
        [\<lparr>id' = JStr ''b'', tipo = JStr ''ingreso'', monto = Fin 50,
          fecha = JStr ''2024-03-15'', descripcion = JStr '''', categoria = JStr ''general'',
          metodoPago = JStr ''efectivo'', usuario = JStr '''',
          createdAt = JStr ''2024-03-15T10:00:00.000Z'',
          localId = 1, syncStatus = Synced, comprobante = JUndefined\<rparr>],
      nextLocalId = 2, lastSync = None\<rparr>, 1)"
proof -
  note inst = pull_normalizes_remote_records
    [where upsert = upsertRemoteTransaction and strToNum = sample_strToNum
       and now = "''2024-03-15T10:00:00.000Z''" and ts = "[sample_remote ''b'' 50]"
       and s = emptyStore and n = 0 and t = "sample_remote ''a'' 200"]
  from inst [THEN conjunct2, THEN conjunct2, THEN conjunct1]
  have "pull_loop upsertRemoteTransaction sample_strToNum ''2024-03-15T10:00:00.000Z''
     [(sample_remote ''a'' 200)(''id'' := JStr ''''), sample_remote ''b'' 50] emptyStore 0 =
     pull_loop upsertRemoteTransaction sample_strToNum ''2024-03-15T10:00:00.000Z''
       [sample_remote ''b'' 50] emptyStore 0" .
  also have "\<dots> = (\<lparr>transactions =
        [\<lparr>id' = JStr ''b'', tipo = JStr ''ingreso'', monto = Fin 50,
          fecha = JStr ''2024-03-15'', descripcion = JStr '''', categoria = JStr ''general'',
          metodoPago = JStr ''efectivo'', usuario = JStr '''',
          createdAt = JStr ''2024-03-15T10:00:00.000Z'',
          localId = 1, syncStatus = Synced, comprobante = JUndefined\<rparr>],
      nextLocalId = 2, lastSync = None\<rparr>, 1)"
    by (simp add: sample_remote_def emptyStore_def upsertRemoteTransaction_def
        remote_fields_def insert_fields_def or_else_def)
  finally show ?thesis .
qed

end

